theory Spec2Isabelle
  imports Main
begin

section \<open>Time, errors and callables\<close>

text \<open>
  A \<^verbatim>\<open>time.Time\<close> is modelled by its count of nanoseconds, an unbounded integer; a
  \<^verbatim>\<open>time.Duration\<close> is an \<^verbatim>\<open>int64\<close> count of nanoseconds. \<^verbatim>\<open>Time.Sub\<close> (and so
  \<^verbatim>\<open>time.Since\<close>) saturates at the ends of the \<^verbatim>\<open>int64\<close> range, and negating a
  duration wraps at the smallest value. The clock reading of \<^verbatim>\<open>time.Now()\<close> is an
  explicit argument of every operation that reads the clock.
\<close>

type_synonym time = int
type_synonym duration = int

definition maxDuration :: duration where
  "maxDuration = 2 ^ 63 - 1"

definition minDuration :: duration where
  "minDuration = - (2 ^ 63)"

definition Second :: duration where
  "Second = 1000000000"

definition time_sub :: "time \<Rightarrow> time \<Rightarrow> duration" where
  "time_sub t u =
     (let d = t - u
      in if maxDuration < d then maxDuration
         else if d < minDuration then minDuration
         else d)"

definition time_since :: "time \<Rightarrow> time \<Rightarrow> duration" where
  "time_since now t = time_sub now t"

definition neg_duration :: "duration \<Rightarrow> duration" where
  "neg_duration d = (if d = minDuration then minDuration else - d)"

definition time_add :: "time \<Rightarrow> duration \<Rightarrow> time" where
  "time_add t d = t + d"

definition time_after :: "time \<Rightarrow> time \<Rightarrow> bool" where
  "time_after t u \<longleftrightarrow> u < t"

text \<open>
  Go's \<^verbatim>\<open>error\<close> interface is \<open>error option\<close>, \<open>None\<close> being \<^verbatim>\<open>nil\<close>. The two
  sentinel errors of the package, the two errors a \<^verbatim>\<open>context.Context\<close> reports, and
  any other error a callable may return.
\<close>

datatype error =
    ErrCircuitOpen
  | ErrBulkheadFull
  | Canceled
  | DeadlineExceeded
  | CallError string

text \<open>
  A call either returns a value or panics. A callable runs on the part of the world it
  can reach and may never return (\<open>None\<close>).
\<close>

datatype 'a outcome = Returned 'a | Panicked string

type_synonym ('a, 'w) callable = "'w \<Rightarrow> ('a outcome \<times> 'w) option"

section \<open>Circuit breaker with a sliding window\<close>

datatype CircuitState = StateClosed | StateOpen | StateHalfOpen

definition state_value :: "CircuitState \<Rightarrow> int" where
  "state_value s = (case s of StateClosed \<Rightarrow> 0 | StateOpen \<Rightarrow> 1 | StateHalfOpen \<Rightarrow> 2)"

text \<open>
  The struct, without its mutex (every operation below is one critical section), and
  with the values of the two Prometheus metrics under this breaker's label.
\<close>

record CircuitBreaker =
  state :: CircuitState
  failureTimestamps :: "time list"
  failureThreshold :: int
  failureWindow :: duration
  successThreshold :: int
  timeout :: duration
  lastFailureTime :: time
  serviceName :: string
  circuitBreakerState :: int
  circuitBreakerFailures :: nat

definition zeroTime :: time where
  "zeroTime = - 62135596800 * Second"

definition NewCircuitBreaker :: "string \<Rightarrow> int \<Rightarrow> duration \<Rightarrow> CircuitBreaker" where
  "NewCircuitBreaker name threshold tmo =
     \<lparr> state = StateClosed,
       failureTimestamps = [],
       failureThreshold = threshold,
       failureWindow = 10 * Second,
       successThreshold = 1,
       timeout = tmo,
       lastFailureTime = zeroTime,
       serviceName = name,
       circuitBreakerState = 0,
       circuitBreakerFailures = 0 \<rparr>"

definition setState :: "CircuitState \<Rightarrow> CircuitBreaker \<Rightarrow> CircuitBreaker" where
  "setState s cb = cb\<lparr>state := s, circuitBreakerState := state_value s\<rparr>"

definition GetState :: "CircuitBreaker \<Rightarrow> CircuitState" where
  "GetState cb = state cb"

text \<open>
  \<^verbatim>\<open>CircuitState\<close> is an integer type with three named values, and the field
  \<^verbatim>\<open>state\<close> only ever receives one of them, so the \<^verbatim>\<open>default\<close> branch of the
  switch in \<^verbatim>\<open>canAttempt\<close> has no counterpart here.
\<close>

definition canAttempt :: "time \<Rightarrow> CircuitBreaker \<Rightarrow> bool \<times> CircuitBreaker" where
  "canAttempt now cb =
     (case state cb of
        StateClosed \<Rightarrow> (True, cb)
      | StateOpen \<Rightarrow>
          if timeout cb < time_since now (lastFailureTime cb)
          then (True, setState StateHalfOpen cb)
          else (False, cb)
      | StateHalfOpen \<Rightarrow> (True, cb))"

text \<open>
  The two \<^verbatim>\<open>range\<close> statements over \<^verbatim>\<open>failureTimestamps\<close>, with the counter and
  the new slice as accumulators.
\<close>

fun count_after :: "time \<Rightarrow> time list \<Rightarrow> int \<Rightarrow> int" where
  "count_after windowStart [] count = count"
| "count_after windowStart (ts # rest) count =
     count_after windowStart rest (if time_after ts windowStart then count + 1 else count)"

definition countFailuresInWindow :: "time \<Rightarrow> CircuitBreaker \<Rightarrow> int" where
  "countFailuresInWindow now cb =
     (let windowStart = time_add now (neg_duration (failureWindow cb))
      in count_after windowStart (failureTimestamps cb) 0)"

fun keep_after :: "time \<Rightarrow> time list \<Rightarrow> time list \<Rightarrow> time list" where
  "keep_after windowStart [] validFailures = validFailures"
| "keep_after windowStart (ts # rest) validFailures =
     keep_after windowStart rest
       (if time_after ts windowStart then validFailures @ [ts] else validFailures)"

definition cleanupOldFailures :: "time \<Rightarrow> CircuitBreaker \<Rightarrow> CircuitBreaker" where
  "cleanupOldFailures now cb =
     (let windowStart = time_add now (neg_duration (failureWindow cb))
      in cb\<lparr>failureTimestamps := keep_after windowStart (failureTimestamps cb) []\<rparr>)"

definition recordFailure :: "time \<Rightarrow> CircuitBreaker \<Rightarrow> CircuitBreaker" where
  "recordFailure now cb =
     (let cb1 = cb\<lparr>failureTimestamps := failureTimestamps cb @ [now],
                   lastFailureTime := now,
                   circuitBreakerFailures := circuitBreakerFailures cb + 1\<rparr>;
          cb2 = cleanupOldFailures now cb1;
          failuresInWindow = countFailuresInWindow now cb2
      in case state cb2 of
           StateClosed \<Rightarrow>
             if failureThreshold cb2 \<le> failuresInWindow then setState StateOpen cb2 else cb2
         | StateHalfOpen \<Rightarrow> setState StateOpen cb2
         | StateOpen \<Rightarrow> cb2)"

definition recordSuccess :: "CircuitBreaker \<Rightarrow> CircuitBreaker" where
  "recordSuccess cb =
     (case state cb of
        StateHalfOpen \<Rightarrow> setState StateClosed (cb\<lparr>failureTimestamps := []\<rparr>)
      | StateClosed \<Rightarrow> cb
      | StateOpen \<Rightarrow> cb)"

text \<open>
  \<^verbatim>\<open>Execute\<close> reads the clock twice: \<open>tA\<close> in the admission check, \<open>tR\<close> when a
  failure is recorded after the callable has returned. \<open>zero\<close> is the zero value of
  the result type. A panic of the callable leaves \<^verbatim>\<open>Execute\<close> before anything is
  recorded.
\<close>

definition CircuitBreaker_Execute ::
  "time \<Rightarrow> time \<Rightarrow> 'r \<Rightarrow> ('r \<times> error option, 'w) callable \<Rightarrow> CircuitBreaker \<times> 'w
     \<Rightarrow> (('r \<times> error option) outcome \<times> CircuitBreaker \<times> 'w) option" where
  "CircuitBreaker_Execute tA tR zero fn s =
     (case s of (cb, w) \<Rightarrow>
        (case canAttempt tA cb of
           (False, cb1) \<Rightarrow>
             Some (Returned (zero, Some ErrCircuitOpen),
                   cb1\<lparr>circuitBreakerFailures := circuitBreakerFailures cb1 + 1\<rparr>, w)
         | (True, cb1) \<Rightarrow>
             (case fn w of
                None \<Rightarrow> None
              | Some (Panicked msg, w1) \<Rightarrow> Some (Panicked msg, cb1, w1)
              | Some (Returned (result, Some err), w1) \<Rightarrow>
                  Some (Returned (zero, Some err), recordFailure tR cb1, w1)
              | Some (Returned (result, None), w1) \<Rightarrow>
                  Some (Returned (result, None), recordSuccess cb1, w1))))"

section \<open>Circuit breaker with a failure counter\<close>

text \<open>
  The other \<^verbatim>\<open>circuit_break.go\<close> of the repository keeps one counter instead of
  timestamps. Its struct and methods carry the same names in the source; here they are
  prefixed with \<open>fc_\<close>. \<^verbatim>\<open>failureCount++\<close> is \<^verbatim>\<open>int\<close> arithmetic and wraps.
\<close>

definition wrap64 :: "int \<Rightarrow> int" where
  "wrap64 x = (x + 2 ^ 63) mod 2 ^ 64 - 2 ^ 63"

record fc_CircuitBreaker =
  fc_state :: CircuitState
  fc_failureCount :: int
  fc_failureThreshold :: int
  fc_successThreshold :: int
  fc_timeout :: duration
  fc_lastFailureTime :: time
  fc_serviceName :: string
  fc_circuitBreakerState :: int
  fc_circuitBreakerFailures :: nat

definition fc_NewCircuitBreaker :: "string \<Rightarrow> int \<Rightarrow> duration \<Rightarrow> fc_CircuitBreaker" where
  "fc_NewCircuitBreaker name threshold tmo =
     \<lparr> fc_state = StateClosed,
       fc_failureCount = 0,
       fc_failureThreshold = threshold,
       fc_successThreshold = 1,
       fc_timeout = tmo,
       fc_lastFailureTime = zeroTime,
       fc_serviceName = name,
       fc_circuitBreakerState = 0,
       fc_circuitBreakerFailures = 0 \<rparr>"

definition fc_setState :: "CircuitState \<Rightarrow> fc_CircuitBreaker \<Rightarrow> fc_CircuitBreaker" where
  "fc_setState s cb = cb\<lparr>fc_state := s, fc_circuitBreakerState := state_value s\<rparr>"

definition fc_canAttempt :: "time \<Rightarrow> fc_CircuitBreaker \<Rightarrow> bool \<times> fc_CircuitBreaker" where
  "fc_canAttempt now cb =
     (case fc_state cb of
        StateClosed \<Rightarrow> (True, cb)
      | StateOpen \<Rightarrow>
          if fc_timeout cb < time_since now (fc_lastFailureTime cb)
          then (True, fc_setState StateHalfOpen cb)
          else (False, cb)
      | StateHalfOpen \<Rightarrow> (True, cb))"

definition fc_recordFailure :: "time \<Rightarrow> fc_CircuitBreaker \<Rightarrow> fc_CircuitBreaker" where
  "fc_recordFailure now cb =
     (let cb1 = cb\<lparr>fc_failureCount := wrap64 (fc_failureCount cb + 1),
                   fc_lastFailureTime := now,
                   fc_circuitBreakerFailures := fc_circuitBreakerFailures cb + 1\<rparr>
      in case fc_state cb1 of
           StateClosed \<Rightarrow>
             if fc_failureThreshold cb1 \<le> fc_failureCount cb1
             then fc_setState StateOpen cb1 else cb1
         | StateHalfOpen \<Rightarrow> fc_setState StateOpen cb1
         | StateOpen \<Rightarrow> cb1)"

definition fc_recordSuccess :: "fc_CircuitBreaker \<Rightarrow> fc_CircuitBreaker" where
  "fc_recordSuccess cb =
     (case fc_state cb of
        StateHalfOpen \<Rightarrow> fc_setState StateClosed (cb\<lparr>fc_failureCount := 0\<rparr>)
      | StateClosed \<Rightarrow> cb\<lparr>fc_failureCount := 0\<rparr>
      | StateOpen \<Rightarrow> cb)"

definition fc_Execute ::
  "time \<Rightarrow> time \<Rightarrow> 'r \<Rightarrow> ('r \<times> error option, 'w) callable \<Rightarrow> fc_CircuitBreaker \<times> 'w
     \<Rightarrow> (('r \<times> error option) outcome \<times> fc_CircuitBreaker \<times> 'w) option" where
  "fc_Execute tA tR zero fn s =
     (case s of (cb, w) \<Rightarrow>
        (case fc_canAttempt tA cb of
           (False, cb1) \<Rightarrow>
             Some (Returned (zero, Some ErrCircuitOpen),
                   cb1\<lparr>fc_circuitBreakerFailures := fc_circuitBreakerFailures cb1 + 1\<rparr>, w)
         | (True, cb1) \<Rightarrow>
             (case fn w of
                None \<Rightarrow> None
              | Some (Panicked msg, w1) \<Rightarrow> Some (Panicked msg, cb1, w1)
              | Some (Returned (result, Some err), w1) \<Rightarrow>
                  Some (Returned (zero, Some err), fc_recordFailure tR cb1, w1)
              | Some (Returned (result, None), w1) \<Rightarrow>
                  Some (Returned (result, None), fc_recordSuccess cb1, w1))))"

section \<open>Runs of breaker operations\<close>

text \<open>
  \<^verbatim>\<open>canAttempt\<close>, \<^verbatim>\<open>recordFailure\<close> and \<^verbatim>\<open>recordSuccess\<close> each hold the
  breaker's lock from entry to exit, so concurrent callers interleave at the level of
  these three operations. The runs below are the interleavings the properties speak of.
\<close>

text \<open>The start of the window, as both functions compute it from the clock reading.\<close>

definition windowStart_of :: "time \<Rightarrow> CircuitBreaker \<Rightarrow> time" where
  "windowStart_of now cb = time_add now (neg_duration (failureWindow cb))"

text \<open>Failures recorded one after the other, at the given clock readings.\<close>

fun record_failures :: "time list \<Rightarrow> CircuitBreaker \<Rightarrow> CircuitBreaker" where
  "record_failures [] cb = cb"
| "record_failures (t # ts) cb = record_failures ts (recordFailure t cb)"

text \<open>
  Admission checks of several callers, at the given clock readings, with no outcome
  recorded in between (their callables are still running).
\<close>

fun admission_checks :: "time list \<Rightarrow> CircuitBreaker \<Rightarrow> bool list \<times> CircuitBreaker" where
  "admission_checks [] cb = ([], cb)"
| "admission_checks (t # ts) cb =
     (case canAttempt t cb of (ok, cb1) \<Rightarrow>
        (case admission_checks ts cb1 of (oks, cb2) \<Rightarrow> (ok # oks, cb2)))"

text \<open>Calls of \<^verbatim>\<open>Execute\<close> one after the other, each with its two clock readings.\<close>

fun Execute_calls ::
  "(time \<times> time \<times> ('r \<times> error option, 'w) callable) list \<Rightarrow> 'r \<Rightarrow> CircuitBreaker \<times> 'w
     \<Rightarrow> (('r \<times> error option) outcome list \<times> CircuitBreaker \<times> 'w) option" where
  "Execute_calls [] zero s = Some ([], s)"
| "Execute_calls ((tA, tR, fn) # calls) zero s =
     (case CircuitBreaker_Execute tA tR zero fn s of
        None \<Rightarrow> None
      | Some (out, s1) \<Rightarrow>
          (case Execute_calls calls zero s1 of
             None \<Rightarrow> None
           | Some (outs, s2) \<Rightarrow> Some (out # outs, s2)))"

section \<open>Sample callables\<close>

text \<open>
  Callables for running the operations on concrete inputs. The world they act on is
  the number of times a callable has been invoked.
\<close>

definition call_ok :: "(nat \<times> error option, nat) callable" where
  "call_ok w = Some (Returned (42, None), Suc w)"

definition call_failing :: "(nat \<times> error option, nat) callable" where
  "call_failing w = Some (Returned (7, Some (CallError ''status 500'')), Suc w)"

section \<open>Bulkhead\<close>

text \<open>
  The semaphore is a buffered channel of empty structs, so it is its capacity and the
  number of elements in its buffer. A negative size makes \<^verbatim>\<open>make\<close> panic. A send in a
  \<^verbatim>\<open>select\<close> can proceed when the buffer has room (with capacity 0 it would need a
  waiting receiver, and the only receive of the program follows a send). A receive on
  an empty buffer waits for a sender; no sender of this program waits, so it is the
  value \<open>None\<close>.
\<close>

record chan =
  chan_cap :: nat
  chan_len :: nat

definition make_chan :: "int \<Rightarrow> chan outcome" where
  "make_chan n =
     (if n < 0 then Panicked ''makechan: size out of range''
      else Returned \<lparr>chan_cap = nat n, chan_len = 0\<rparr>)"

definition can_send :: "chan \<Rightarrow> bool" where
  "can_send c \<longleftrightarrow> chan_len c < chan_cap c"

definition send :: "chan \<Rightarrow> chan" where
  "send c = c\<lparr>chan_len := chan_len c + 1\<rparr>"

definition recv :: "chan \<Rightarrow> chan option" where
  "recv c = (if chan_len c = 0 then None else Some (c\<lparr>chan_len := chan_len c - 1\<rparr>))"

text \<open>
  A \<^verbatim>\<open>select\<close> statement: among the cases that can proceed the runtime chooses one
  (\<open>pick\<close> stands for its pseudo-random choice); if none can, the default case runs;
  without a default case the goroutine would wait (\<open>None\<close>).
\<close>

datatype select_case = CaseSend | CaseDone | CaseDefault

definition go_select :: "nat \<Rightarrow> select_case list \<Rightarrow> bool \<Rightarrow> select_case option" where
  "go_select pick ready has_default =
     (if ready = [] then (if has_default then Some CaseDefault else None)
      else Some (ready ! (pick mod length ready)))"

text \<open>The struct, with the values of the two Prometheus metrics under its pool's label.\<close>

record Bulkhead =
  semaphore :: chan
  poolName :: string
  bulkheadActive :: int
  bulkheadRejected :: nat

definition NewBulkhead :: "string \<Rightarrow> int \<Rightarrow> Bulkhead outcome" where
  "NewBulkhead name maxConcurrent =
     (case make_chan maxConcurrent of
        Panicked msg \<Rightarrow> Panicked msg
      | Returned c \<Rightarrow>
          Returned \<lparr>semaphore = c, poolName = name, bulkheadActive = 0, bulkheadRejected = 0\<rparr>)"

definition GetActiveCount :: "Bulkhead \<Rightarrow> nat" where
  "GetActiveCount b = chan_len (semaphore b)"

text \<open>
  The three pieces of \<^verbatim>\<open>Execute\<close> and \<^verbatim>\<open>TryExecute\<close>: the send of the first case
  with the increment of the gauge, the deferred function, and the default case. Each
  metric is updated together with the channel operation it accompanies.
\<close>

definition acquire :: "Bulkhead \<Rightarrow> Bulkhead" where
  "acquire b = b\<lparr>semaphore := send (semaphore b), bulkheadActive := bulkheadActive b + 1\<rparr>"

definition release :: "Bulkhead \<Rightarrow> Bulkhead option" where
  "release b =
     (case recv (semaphore b) of
        None \<Rightarrow> None
      | Some c \<Rightarrow> Some (b\<lparr>semaphore := c, bulkheadActive := bulkheadActive b - 1\<rparr>))"

definition reject :: "Bulkhead \<Rightarrow> Bulkhead" where
  "reject b = b\<lparr>bulkheadRejected := bulkheadRejected b + 1\<rparr>"

text \<open>
  The context is modelled by what \<^verbatim>\<open>ctx.Err()\<close> reports when the \<^verbatim>\<open>select\<close> runs:
  \<open>None\<close> while the context is not done (its \<^verbatim>\<open>Done\<close> channel is open).
\<close>

definition Execute_select :: "nat \<Rightarrow> error option \<Rightarrow> Bulkhead \<Rightarrow> select_case option" where
  "Execute_select pick ctx b =
     go_select pick
       ((if can_send (semaphore b) then [CaseSend] else [])
          @ (if ctx \<noteq> None then [CaseDone] else []))
       True"

text \<open>
  The \<^verbatim>\<open>select\<close> of \<^verbatim>\<open>TryExecute\<close> has one case beside the default, so the
  runtime has nothing to choose, and \<open>CaseDone\<close> is never its result.
\<close>

definition TryExecute_select :: "Bulkhead \<Rightarrow> select_case option" where
  "TryExecute_select b =
     go_select 0 (if can_send (semaphore b) then [CaseSend] else []) True"

text \<open>
  An admitted call: the callable runs while the slot is held; when it returns or
  panics the deferred function gives the slot back, and the return value or the panic
  goes to the caller. A callable that never returns keeps the slot.
\<close>

definition run_admitted ::
  "(error option, 'w) callable \<Rightarrow> Bulkhead \<times> 'w \<Rightarrow> (error option outcome \<times> Bulkhead \<times> 'w) option"
  where
  "run_admitted fn s =
     (case s of (b, w) \<Rightarrow>
        (let b1 = acquire b
         in case fn w of
              None \<Rightarrow> None
            | Some (r, w1) \<Rightarrow>
                (case release b1 of
                   None \<Rightarrow> None
                 | Some b2 \<Rightarrow> Some (r, b2, w1))))"

definition Bulkhead_Execute ::
  "nat \<Rightarrow> error option \<Rightarrow> (error option, 'w) callable \<Rightarrow> Bulkhead \<times> 'w
     \<Rightarrow> (error option outcome \<times> Bulkhead \<times> 'w) option" where
  "Bulkhead_Execute pick ctx fn s =
     (case s of (b, w) \<Rightarrow>
        (case Execute_select pick ctx b of
           None \<Rightarrow> None
         | Some CaseSend \<Rightarrow> run_admitted fn (b, w)
         | Some CaseDone \<Rightarrow> Some (Returned ctx, b, w)
         | Some CaseDefault \<Rightarrow> Some (Returned (Some ErrBulkheadFull), reject b, w)))"

definition Bulkhead_TryExecute ::
  "(error option, 'w) callable \<Rightarrow> Bulkhead \<times> 'w
     \<Rightarrow> (error option outcome \<times> Bulkhead \<times> 'w) option" where
  "Bulkhead_TryExecute fn s =
     (case s of (b, w) \<Rightarrow>
        (case TryExecute_select b of
           None \<Rightarrow> None
         | Some CaseSend \<Rightarrow> run_admitted fn (b, w)
         | Some CaseDone \<Rightarrow> None
         | Some CaseDefault \<Rightarrow> Some (Returned (Some ErrBulkheadFull), reject b, w)))"

section \<open>Concurrent calls on one bulkhead\<close>

text \<open>
  Goroutines that call \<^verbatim>\<open>Execute\<close> or \<^verbatim>\<open>TryExecute\<close> on the same bulkhead
  interleave at the channel operations. A call that was admitted is executing its
  callable, then has left the callable with a result or a panic and has its deferred
  function pending, then is complete. A schedule is a list of events; an event that
  cannot happen in a state (no such call, or a receive that would wait) yields \<open>None\<close>.
\<close>

datatype call_phase =
    Executing
  | Unwinding "error option outcome"
  | Completed "error option outcome"

datatype event =
    Call_Execute nat "error option"
  | Call_TryExecute
  | Callable_Ends nat "error option outcome"
  | Deferred_Runs nat

record pool =
  bulkhead :: Bulkhead
  phases :: "call_phase list"

definition enter :: "select_case option \<Rightarrow> error option \<Rightarrow> pool \<Rightarrow> pool option" where
  "enter chosen ctx p =
     (case chosen of
        None \<Rightarrow> None
      | Some CaseSend \<Rightarrow>
          Some (p\<lparr>bulkhead := acquire (bulkhead p), phases := phases p @ [Executing]\<rparr>)
      | Some CaseDone \<Rightarrow> Some (p\<lparr>phases := phases p @ [Completed (Returned ctx)]\<rparr>)
      | Some CaseDefault \<Rightarrow>
          Some (p\<lparr>bulkhead := reject (bulkhead p),
                 phases := phases p @ [Completed (Returned (Some ErrBulkheadFull))]\<rparr>))"

fun fire :: "event \<Rightarrow> pool \<Rightarrow> pool option" where
  "fire (Call_Execute pick ctx) p = enter (Execute_select pick ctx (bulkhead p)) ctx p"
| "fire Call_TryExecute p = enter (TryExecute_select (bulkhead p)) None p"
| "fire (Callable_Ends i r) p =
     (if i < length (phases p) \<and> phases p ! i = Executing
      then Some (p\<lparr>phases := (phases p)[i := Unwinding r]\<rparr>)
      else None)"
| "fire (Deferred_Runs i) p =
     (if i < length (phases p)
      then (case phases p ! i of
              Unwinding r \<Rightarrow>
                (case release (bulkhead p) of
                   None \<Rightarrow> None
                 | Some b \<Rightarrow> Some (p\<lparr>bulkhead := b, phases := (phases p)[i := Completed r]\<rparr>))
            | Executing \<Rightarrow> None
            | Completed r \<Rightarrow> None)
      else None)"

fun run :: "event list \<Rightarrow> pool \<Rightarrow> pool option" where
  "run [] p = Some p"
| "run (e # es) p = (case fire e p of None \<Rightarrow> None | Some p1 \<Rightarrow> run es p1)"

definition fresh_pool :: "Bulkhead \<Rightarrow> pool" where
  "fresh_pool b = \<lparr>bulkhead = b, phases = []\<rparr>"

fun holds_slot :: "call_phase \<Rightarrow> bool" where
  "holds_slot Executing = True"
| "holds_slot (Unwinding r) = True"
| "holds_slot (Completed r) = False"

definition holding :: "pool \<Rightarrow> nat" where
  "holding p = length (filter holds_slot (phases p))"

definition executing :: "pool \<Rightarrow> nat" where
  "executing p = length (filter (\<lambda>c. c = Executing) (phases p))"

text \<open>
  The balance of a pool: the semaphore holds one element for each call that was admitted
  and has not run its deferred function, and no more elements than its capacity.
\<close>

definition balanced :: "pool \<Rightarrow> bool" where
  "balanced p \<longleftrightarrow>
     GetActiveCount (bulkhead p) = holding p
     \<and> GetActiveCount (bulkhead p) \<le> chan_cap (semaphore (bulkhead p))"

text \<open>
  Bulkheads and callables for runs on concrete inputs; the world of the callables is the
  number of invocations.
\<close>

definition pool_of_two :: Bulkhead where
  "pool_of_two =
     \<lparr>semaphore = \<lparr>chan_cap = 2, chan_len = 0\<rparr>, poolName = ''payment'',
      bulkheadActive = 0, bulkheadRejected = 0\<rparr>"

definition payment_pool_full :: Bulkhead where
  "payment_pool_full =
     \<lparr>semaphore = \<lparr>chan_cap = 10, chan_len = 10\<rparr>, poolName = ''payment'',
      bulkheadActive = 10, bulkheadRejected = 0\<rparr>"

definition work_ok :: "(error option, nat) callable" where
  "work_ok w = Some (Returned None, Suc w)"

definition work_failing :: "(error option, nat) callable" where
  "work_failing w = Some (Returned (Some (CallError ''status 500'')), Suc w)"

definition work_panicking :: "(error option, nat) callable" where
  "work_panicking w = Some (Panicked ''nil dereference'', Suc w)"

section \<open>The payment client\<close>

text \<open>
  \<^verbatim>\<open>ProcessPayment\<close> of the resilient client. The HTTP call \<^verbatim>\<open>makePaymentCall\<close>
  is a parameter: a callable on the network that returns a response pointer and an
  error. The closure given to the bulkhead writes the variables \<^verbatim>\<open>result\<close> and
  \<^verbatim>\<open>callErr\<close> of the enclosing function, so they are part of the world it runs on;
  the closure given to the breaker runs on the bulkhead and the network.
\<close>

definition call_closure ::
  "('resp option \<times> error option, 'net) callable
     \<Rightarrow> (error option, 'resp option \<times> error option \<times> 'net) callable" where
  "call_closure makePaymentCall v =
     (case v of (result, callErr, net) \<Rightarrow>
        (case makePaymentCall net of
           None \<Rightarrow> None
         | Some (Panicked msg, net1) \<Rightarrow> Some (Panicked msg, (result, callErr, net1))
         | Some (Returned (r, e), net1) \<Rightarrow> Some (Returned e, (r, e, net1))))"

definition bulkhead_closure ::
  "('resp option \<times> error option, 'net) callable
     \<Rightarrow> ('resp option \<times> error option, Bulkhead \<times> 'net) callable" where
  "bulkhead_closure makePaymentCall v =
     (case v of (b, net) \<Rightarrow>
        (case Bulkhead_TryExecute (call_closure makePaymentCall) (b, (None, None, net)) of
           None \<Rightarrow> None
         | Some (Panicked msg, b1, (result, callErr, net1)) \<Rightarrow> Some (Panicked msg, (b1, net1))
         | Some (Returned bulkheadErr, b1, (result, callErr, net1)) \<Rightarrow>
             (if bulkheadErr \<noteq> None then Some (Returned (None, bulkheadErr), (b1, net1))
              else Some (Returned (result, callErr), (b1, net1)))))"

definition ProcessPayment ::
  "time \<Rightarrow> time \<Rightarrow> ('resp option \<times> error option, 'net) callable
     \<Rightarrow> CircuitBreaker \<times> Bulkhead \<times> 'net
     \<Rightarrow> (('resp option \<times> error option) outcome \<times> CircuitBreaker \<times> Bulkhead \<times> 'net) option"
  where
  "ProcessPayment tA tR makePaymentCall s =
     (case s of (cb, b, net) \<Rightarrow>
        CircuitBreaker_Execute tA tR None (bulkhead_closure makePaymentCall) (cb, (b, net)))"

text \<open>The payment service answering, for runs on concrete inputs.\<close>

definition pay_ok :: "(nat option \<times> error option, nat) callable" where
  "pay_ok net = Some (Returned (Some 1, None), Suc net)"

definition pay_failing :: "(nat option \<times> error option, nat) callable" where
  "pay_failing net = Some (Returned (None, Some (CallError ''status 500'')), Suc net)"

section \<open>Facts about the window\<close>

lemma count_after_filter:
  "count_after ws xs c = c + int (length (filter (\<lambda>ts. time_after ts ws) xs))"
  by (induction xs arbitrary: c) auto

lemma keep_after_filter:
  "keep_after ws xs acc = acc @ filter (\<lambda>ts. time_after ts ws) xs"
  by (induction xs arbitrary: acc) auto

lemma recordFailure_timestamps:
  "failureTimestamps (recordFailure now cb) =
     filter (\<lambda>ts. time_after ts (windowStart_of now cb)) (failureTimestamps cb @ [now])"
  by (simp add: recordFailure_def cleanupOldFailures_def setState_def keep_after_filter
      windowStart_of_def Let_def split: CircuitState.splits)

lemma recordFailure_lastFailureTime:
  "lastFailureTime (recordFailure now cb) = now"
  by (simp add: recordFailure_def cleanupOldFailures_def setState_def Let_def
      split: CircuitState.splits)

lemma recordFailure_state:
  "state (recordFailure now cb) =
     (case state cb of
        StateClosed \<Rightarrow>
          if failureThreshold cb
               \<le> int (length (filter (\<lambda>ts. time_after ts (windowStart_of now cb))
                                 (failureTimestamps cb @ [now])))
          then StateOpen else StateClosed
      | StateHalfOpen \<Rightarrow> StateOpen
      | StateOpen \<Rightarrow> StateOpen)"
  by (simp add: recordFailure_def cleanupOldFailures_def countFailuresInWindow_def
      setState_def keep_after_filter count_after_filter windowStart_of_def Let_def
      split: CircuitState.splits)

lemma recordFailure_config:
  "failureThreshold (recordFailure now cb) = failureThreshold cb"
  "failureWindow (recordFailure now cb) = failureWindow cb"
  "timeout (recordFailure now cb) = timeout cb"
  by (simp_all add: recordFailure_def cleanupOldFailures_def setState_def Let_def
      split: CircuitState.splits)

lemma neg_duration_pos: "0 < d \<Longrightarrow> neg_duration d = - d"
  by (simp add: neg_duration_def minDuration_def)

lemma in_window_iff:
  "0 < failureWindow cb \<Longrightarrow>
     time_after ts (windowStart_of now cb) \<longleftrightarrow> now - ts < failureWindow cb"
  by (auto simp: time_after_def windowStart_of_def time_add_def neg_duration_pos)

lemma record_failures_snoc:
  "record_failures (ts @ [t]) cb = recordFailure t (record_failures ts cb)"
  by (induction ts arbitrary: cb) auto

lemma record_failures_config:
  "failureThreshold (record_failures ts cb) = failureThreshold cb"
  "failureWindow (record_failures ts cb) = failureWindow cb"
  "timeout (record_failures ts cb) = timeout cb"
  by (induction ts arbitrary: cb) (auto simp: recordFailure_config)

lemma record_failures_last:
  "ts \<noteq> [] \<Longrightarrow> lastFailureTime (record_failures ts cb) = last ts"
  by (induction ts rule: rev_induct)
    (auto simp: record_failures_snoc recordFailure_lastFailureTime)

lemma record_failures_not_halfopen:
  "state cb \<noteq> StateHalfOpen \<Longrightarrow> state (record_failures ts cb) \<noteq> StateHalfOpen"
  by (induction ts arbitrary: cb) (auto simp: recordFailure_state split: CircuitState.splits)

text \<open>
  With clock readings that do not decrease, the history after a run of failures is the
  old history and the run, cut to the window that ends at the last failure.
\<close>

lemma record_failures_timestamps:
  assumes "sorted ts" and "ts \<noteq> []" and "0 < failureWindow cb"
  shows "failureTimestamps (record_failures ts cb)
       = filter (\<lambda>x. last ts - x < failureWindow cb) (failureTimestamps cb @ ts)"
  using assms
proof (induction ts rule: rev_induct)
  case Nil
  then show ?case by simp
next
  case (snoc t ts)
  have pos: "0 < failureWindow (record_failures ts cb)"
    using snoc.prems by (simp add: record_failures_config)
  show ?case
  proof (cases "ts = []")
    case True
    then show ?thesis
      using snoc.prems by (simp add: recordFailure_timestamps in_window_iff)
  next
    case False
    have srt: "sorted ts" and le: "last ts \<le> t"
      using snoc.prems False by (auto simp: sorted_append)
    have ih: "failureTimestamps (record_failures ts cb)
       = filter (\<lambda>x. last ts - x < failureWindow cb) (failureTimestamps cb @ ts)"
      using snoc.IH srt False snoc.prems by simp
    have imp: "\<And>x. t - x < failureWindow cb \<Longrightarrow> last ts - x < failureWindow cb"
      using le by linarith
    have ff: "filter (\<lambda>x. t - x < failureWindow cb)
                (filter (\<lambda>x. last ts - x < failureWindow cb) xs)
            = filter (\<lambda>x. t - x < failureWindow cb) xs" for xs
      using imp by (induction xs) auto
    show ?thesis
      using pos snoc.prems ff [of "failureTimestamps cb @ ts"]
      by (simp add: record_failures_snoc recordFailure_timestamps in_window_iff ih
          record_failures_config)
  qed
qed

lemma record_failures_trips:
  assumes cl: "state cb = StateClosed" and ne: "ts \<noteq> []" and srt: "sorted ts"
    and thr: "failureThreshold cb \<le> int (length ts)"
    and win: "\<forall>t\<in>set ts. last ts - t < failureWindow cb"
  shows "state (record_failures ts cb) = StateOpen"
proof -
  obtain ts0 t where ts: "ts = ts0 @ [t]"
    using ne by (cases ts rule: rev_cases) auto
  define cb0 where "cb0 = record_failures ts0 cb"
  have pos: "0 < failureWindow cb"
    using win ne last_in_set [OF ne] by fastforce
  have nh: "state cb0 \<noteq> StateHalfOpen"
    using cl by (simp add: cb0_def record_failures_not_halfopen)
  have all: "filter (\<lambda>x. last ts - x < failureWindow cb) ts = ts"
    using win by (simp add: filter_id_conv)
  have "failureTimestamps (recordFailure t cb0)
       = filter (\<lambda>x. last ts - x < failureWindow cb) (failureTimestamps cb) @ ts"
    using record_failures_timestamps [OF srt ne pos] all
    by (simp add: ts cb0_def record_failures_snoc del: filter_append)
      (simp add: ts)
  then have len: "int (length ts) \<le> int (length (failureTimestamps (recordFailure t cb0)))"
    by simp
  have "state (recordFailure t cb0) = StateOpen"
  proof (cases "state cb0")
    case StateClosed
    then show ?thesis
      using len thr
      by (simp add: recordFailure_state recordFailure_timestamps cb0_def record_failures_config)
  next
    case StateOpen
    then show ?thesis by (simp add: recordFailure_state)
  next
    case StateHalfOpen
    then show ?thesis using nh by simp
  qed
  then show ?thesis
    by (simp add: ts cb0_def record_failures_snoc)
qed

section \<open>Rejection while open\<close>

lemma Execute_rejected:
  assumes "state cb = StateOpen" and "\<not> timeout cb < time_since tA (lastFailureTime cb)"
  shows "CircuitBreaker_Execute tA tR zero fn (cb, w)
       = Some (Returned (zero, Some ErrCircuitOpen),
               cb\<lparr>circuitBreakerFailures := circuitBreakerFailures cb + 1\<rparr>, w)"
  using assms by (simp add: CircuitBreaker_Execute_def canAttempt_def)

lemma Execute_calls_rejected:
  assumes "state cb = StateOpen"
    and "\<forall>c\<in>set calls. time_since (fst c) (lastFailureTime cb) \<le> timeout cb"
  shows "Execute_calls calls zero (cb, w)
       = Some (replicate (length calls) (Returned (zero, Some ErrCircuitOpen)),
               cb\<lparr>circuitBreakerFailures := circuitBreakerFailures cb + length calls\<rparr>, w)"
  using assms
proof (induction calls arbitrary: cb)
  case Nil
  then show ?case by simp
next
  case (Cons c calls)
  obtain tA tR fn where c: "c = (tA, tR, fn)" by (cases c) auto
  define cb1 where "cb1 = cb\<lparr>circuitBreakerFailures := circuitBreakerFailures cb + 1\<rparr>"
  have rej: "CircuitBreaker_Execute tA tR zero fn (cb, w)
       = Some (Returned (zero, Some ErrCircuitOpen), cb1, w)"
    using Cons.prems c by (simp add: Execute_rejected cb1_def)
  have "Execute_calls calls zero (cb1, w)
       = Some (replicate (length calls) (Returned (zero, Some ErrCircuitOpen)),
               cb1\<lparr>circuitBreakerFailures := circuitBreakerFailures cb1 + length calls\<rparr>, w)"
    using Cons.prems by (intro Cons.IH) (simp_all add: cb1_def)
  then show ?case
    by (simp add: c rej cb1_def)
qed

text \<open>
  C2, as stated, fails at the edge of the window. The breaker of the payment client has
  threshold 5 and a window of 10 seconds. Four failures at time 0 and a fifth exactly 10
  seconds later are five failures within the window's duration, none of them older than
  the window, yet the fifth failure drops the first four (\<^verbatim>\<open>Time.After\<close> is strict)
  and the breaker stays Closed; the next \<^verbatim>\<open>Execute\<close> invokes its callable.
\<close>

theorem failures_spanning_the_window_stay_closed:
  "failureThreshold (NewCircuitBreaker ''payment'' 5 (30 * Second)) = 5
   \<and> failureWindow (NewCircuitBreaker ''payment'' 5 (30 * Second)) = 10 * Second
   \<and> state (record_failures [0, 0, 0, 0, 10 * Second]
              (NewCircuitBreaker ''payment'' 5 (30 * Second)))
       = StateClosed
   \<and> failureTimestamps
        (record_failures [0, 0, 0, 0, 10 * Second] (NewCircuitBreaker ''payment'' 5 (30 * Second)))
       = [10 * Second]
   \<and> map_option fst
        (CircuitBreaker_Execute (11 * Second) (12 * Second) 0 call_ok
           (record_failures [0, 0, 0, 0, 10 * Second]
              (NewCircuitBreaker ''payment'' 5 (30 * Second)), 0))
       = Some (Returned (42, None))
   \<and> map_option (snd \<circ> snd)
        (CircuitBreaker_Execute (11 * Second) (12 * Second) 0 call_ok
           (record_failures [0, 0, 0, 0, 10 * Second]
              (NewCircuitBreaker ''payment'' 5 (30 * Second)), 0))
       = Some 1"
proof -
  define cb where
    "cb = record_failures [0, 0, 0, 0, 10 * Second]
            (NewCircuitBreaker ''payment'' 5 (30 * Second))"
  have st: "state cb = StateClosed"
    and ft: "failureTimestamps cb = [10 * Second]"
    by (simp_all add: cb_def recordFailure_state recordFailure_timestamps recordFailure_config
        windowStart_of_def NewCircuitBreaker_def time_after_def time_add_def neg_duration_def
        minDuration_def Second_def)
  have adm: "canAttempt (11 * Second) cb = (True, cb)"
    by (simp add: canAttempt_def st)
  have ex: "CircuitBreaker_Execute (11 * Second) (12 * Second) 0 call_ok (cb, 0)
      = Some (Returned (42, None), recordSuccess cb, 1)"
    by (simp add: CircuitBreaker_Execute_def adm call_ok_def)
  show ?thesis
    unfolding cb_def [symmetric] by (simp add: st ft ex NewCircuitBreaker_def)
qed

text \<open>
  C2, amended. Start from a Closed breaker and record a non-empty run of failures, at
  clock readings that do not decrease, at least \<open>failureThreshold\<close> of them and all of
  them strictly less than \<open>failureWindow\<close> before the last one (a failure exactly
  \<open>failureWindow\<close> before the last one is already outside the window). Then the
  breaker is Open, and every
  \<^verbatim>\<open>Execute\<close> call that follows while no more than \<open>timeout\<close> has elapsed since the
  last failure returns the zero result with \<open>ErrCircuitOpen\<close>; the world of the
  callables is untouched (none is invoked) and of the breaker only the rejection
  counter changes.
\<close>

theorem threshold_failures_open_the_breaker:
  assumes "state cb = StateClosed" and "ts \<noteq> []" and "sorted ts"
    and "failureThreshold cb \<le> int (length ts)"
    and "\<forall>t\<in>set ts. last ts - t < failureWindow cb"
    and "\<forall>c\<in>set calls. time_since (fst c) (last ts) \<le> timeout cb"
  shows "state (record_failures ts cb) = StateOpen
       \<and> Execute_calls calls zero (record_failures ts cb, w)
           = Some (replicate (length calls) (Returned (zero, Some ErrCircuitOpen)),
                   (record_failures ts cb)
                     \<lparr>circuitBreakerFailures :=
                        circuitBreakerFailures (record_failures ts cb) + length calls\<rparr>,
                   w)"
proof -
  have op: "state (record_failures ts cb) = StateOpen"
    using assms(1-5) by (rule record_failures_trips)
  have "\<forall>c\<in>set calls.
          time_since (fst c) (lastFailureTime (record_failures ts cb))
            \<le> timeout (record_failures ts cb)"
    using assms(2,6) by (simp add: record_failures_last record_failures_config)
  with op show ?thesis
    by (simp add: Execute_calls_rejected)
qed

theorem threshold_failures_open_the_breaker_witness:
  "state (record_failures [0, 1, 2, Second, 2 * Second]
            (NewCircuitBreaker ''payment'' 5 (30 * Second))) = StateOpen
   \<and> map_option fst
        (Execute_calls [(3 * Second, 4 * Second, call_ok), (32 * Second, 33 * Second, call_failing)] 0
           (record_failures [0, 1, 2, Second, 2 * Second]
              (NewCircuitBreaker ''payment'' 5 (30 * Second)), 0))
       = Some [Returned (0, Some ErrCircuitOpen), Returned (0, Some ErrCircuitOpen)]
   \<and> map_option (snd \<circ> snd)
        (Execute_calls [(3 * Second, 4 * Second, call_ok), (32 * Second, 33 * Second, call_failing)] 0
           (record_failures [0, 1, 2, Second, 2 * Second]
              (NewCircuitBreaker ''payment'' 5 (30 * Second)), 0))
       = Some 0"
proof -
  define cb where "cb = NewCircuitBreaker ''payment'' 5 (30 * Second)"
  define ts where "ts = [0, 1, 2, Second, 2 * Second]"
  define calls where
    "calls = [(3 * Second, 4 * Second, call_ok), (32 * Second, 33 * Second, call_failing)]"
  have h1: "state cb = StateClosed" and h4: "failureThreshold cb \<le> int (length ts)"
    by (simp_all add: cb_def ts_def NewCircuitBreaker_def)
  have h2: "ts \<noteq> []" and h3: "sorted ts"
    by (simp_all add: ts_def Second_def)
  have h5: "\<forall>t\<in>set ts. last ts - t < failureWindow cb"
    by (simp add: ts_def cb_def NewCircuitBreaker_def Second_def)
  have h6: "\<forall>c\<in>set calls. time_since (fst c) (last ts) \<le> timeout cb"
    by (simp add: ts_def calls_def cb_def NewCircuitBreaker_def Second_def time_since_def
        time_sub_def maxDuration_def minDuration_def)
  from threshold_failures_open_the_breaker [OF h1 h2 h3 h4 h5 h6, of 0 0]
  show ?thesis
    unfolding cb_def [symmetric] ts_def [symmetric] calls_def [symmetric]
    by (simp add: calls_def)
qed

section \<open>From open to half-open\<close>

lemma canAttempt_halfopen: "state cb = StateHalfOpen \<Longrightarrow> canAttempt now cb = (True, cb)"
  by (simp add: canAttempt_def)

lemma admission_checks_halfopen:
  "state cb = StateHalfOpen \<Longrightarrow> admission_checks ts cb = (replicate (length ts) True, cb)"
  by (induction ts) (simp_all add: canAttempt_halfopen)

text \<open>
  C3, as stated, fails: the breaker of the payment client, opened by five failures at
  time 0, admits three callers whose admission checks run at 31, 32 and 33 seconds with
  no outcome recorded in between.
\<close>

theorem halfopen_admits_several_trials:
  "state (record_failures [0, 0, 0, 0, 0] (NewCircuitBreaker ''payment'' 5 (30 * Second)))
     = StateOpen
   \<and> fst (admission_checks [31 * Second, 32 * Second, 33 * Second]
            (record_failures [0, 0, 0, 0, 0] (NewCircuitBreaker ''payment'' 5 (30 * Second))))
     = [True, True, True]"
proof -
  define cb where
    "cb = record_failures [0, 0, 0, 0, 0] (NewCircuitBreaker ''payment'' 5 (30 * Second))"
  have op: "state cb = StateOpen"
    by (simp add: cb_def recordFailure_state recordFailure_timestamps recordFailure_config
        windowStart_of_def NewCircuitBreaker_def time_after_def time_add_def neg_duration_def
        minDuration_def Second_def)
  have tmo: "timeout cb = 30 * Second" and lft: "lastFailureTime cb = 0"
    by (simp_all add: cb_def recordFailure_config recordFailure_lastFailureTime
        NewCircuitBreaker_def)
  have "canAttempt (31 * Second) cb = (True, setState StateHalfOpen cb)"
    by (simp add: canAttempt_def op tmo lft time_since_def time_sub_def maxDuration_def
        minDuration_def Second_def)
  then have "fst (admission_checks [31 * Second, 32 * Second, 33 * Second] cb)
      = [True, True, True]"
    by (simp add: canAttempt_halfopen setState_def)
  with op show ?thesis
    unfolding cb_def by simp
qed

text \<open>
  C3, amended. When the breaker is Open and \<^verbatim>\<open>time.Since(lastFailureTime)\<close> exceeds
  \<open>timeout\<close>, the admission check moves it to HalfOpen and admits the request, so
  \<^verbatim>\<open>Execute\<close> invokes the callable and records its outcome on the HalfOpen breaker.
  The number of trials is not limited: every admission check that runs before an
  outcome is recorded is admitted as well.
\<close>

theorem open_timeout_admits_trials:
  assumes "state cb = StateOpen" and "timeout cb < time_since now (lastFailureTime cb)"
  shows "canAttempt now cb = (True, setState StateHalfOpen cb)
       \<and> state (setState StateHalfOpen cb) = StateHalfOpen
       \<and> admission_checks (now # later) cb
           = (replicate (Suc (length later)) True, setState StateHalfOpen cb)
       \<and> CircuitBreaker_Execute now tR zero fn (cb, w)
           = (case fn w of
                None \<Rightarrow> None
              | Some (Panicked msg, w1) \<Rightarrow> Some (Panicked msg, setState StateHalfOpen cb, w1)
              | Some (Returned (result, Some err), w1) \<Rightarrow>
                  Some (Returned (zero, Some err),
                        recordFailure tR (setState StateHalfOpen cb), w1)
              | Some (Returned (result, None), w1) \<Rightarrow>
                  Some (Returned (result, None),
                        recordSuccess (setState StateHalfOpen cb), w1))"
proof -
  have adm: "canAttempt now cb = (True, setState StateHalfOpen cb)"
    using assms by (simp add: canAttempt_def)
  have half: "state (setState StateHalfOpen cb) = StateHalfOpen"
    by (simp add: setState_def)
  have more: "admission_checks (now # later) cb
      = (replicate (Suc (length later)) True, setState StateHalfOpen cb)"
    by (simp add: adm admission_checks_halfopen [OF half])
  have ex: "CircuitBreaker_Execute now tR zero fn (cb, w)
           = (case fn w of
                None \<Rightarrow> None
              | Some (Panicked msg, w1) \<Rightarrow> Some (Panicked msg, setState StateHalfOpen cb, w1)
              | Some (Returned (result, Some err), w1) \<Rightarrow>
                  Some (Returned (zero, Some err),
                        recordFailure tR (setState StateHalfOpen cb), w1)
              | Some (Returned (result, None), w1) \<Rightarrow>
                  Some (Returned (result, None),
                        recordSuccess (setState StateHalfOpen cb), w1))"
    by (simp add: CircuitBreaker_Execute_def adm)
  from adm half more ex show ?thesis by blast
qed

theorem open_timeout_admits_trials_witness:
  "state (record_failures [0, 0, 0, 0, 0] (NewCircuitBreaker ''payment'' 5 (30 * Second)))
     = StateOpen
   \<and> fst (canAttempt (31 * Second)
            (record_failures [0, 0, 0, 0, 0] (NewCircuitBreaker ''payment'' 5 (30 * Second))))
   \<and> state (snd (canAttempt (31 * Second)
            (record_failures [0, 0, 0, 0, 0] (NewCircuitBreaker ''payment'' 5 (30 * Second)))))
     = StateHalfOpen
   \<and> map_option fst
        (CircuitBreaker_Execute (31 * Second) (32 * Second) 0 call_ok
           (record_failures [0, 0, 0, 0, 0] (NewCircuitBreaker ''payment'' 5 (30 * Second)), 0))
     = Some (Returned (42, None))
   \<and> map_option (snd \<circ> snd)
        (CircuitBreaker_Execute (31 * Second) (32 * Second) 0 call_ok
           (record_failures [0, 0, 0, 0, 0] (NewCircuitBreaker ''payment'' 5 (30 * Second)), 0))
     = Some 1"
proof -
  define cb where
    "cb = record_failures [0, 0, 0, 0, 0] (NewCircuitBreaker ''payment'' 5 (30 * Second))"
  have op: "state cb = StateOpen"
    by (simp add: cb_def recordFailure_state recordFailure_timestamps recordFailure_config
        windowStart_of_def NewCircuitBreaker_def time_after_def time_add_def neg_duration_def
        minDuration_def Second_def)
  have tmo: "timeout cb = 30 * Second" and lft: "lastFailureTime cb = 0"
    by (simp_all add: cb_def recordFailure_config recordFailure_lastFailureTime
        NewCircuitBreaker_def)
  have el: "timeout cb < time_since (31 * Second) (lastFailureTime cb)"
    by (simp add: tmo lft time_since_def time_sub_def maxDuration_def minDuration_def Second_def)
  from open_timeout_admits_trials [OF op el, of "[]" "32 * Second" 0 call_ok 0] op
  show ?thesis
    unfolding cb_def [symmetric] by (simp add: call_ok_def)
qed

section \<open>Failures that have aged out\<close>

text \<open>
  C4. A failure recorded at \<open>now\<close> on a Closed breaker opens it exactly when the
  threshold is reached by the current failure together with the earlier failures that
  are less than \<open>failureWindow\<close> old; older timestamps are not counted and are dropped
  from the history. With threshold 5 and the 10-second window, four failures at time 0
  and one at 11 seconds leave the breaker Closed (the instance that follows).
\<close>

theorem aged_out_failures_do_not_count:
  assumes "state cb = StateClosed" and "0 < failureWindow cb"
  shows "(state (recordFailure now cb) = StateOpen \<longleftrightarrow>
            failureThreshold cb
              \<le> int (length (filter (\<lambda>ts. now - ts < failureWindow cb) (failureTimestamps cb)))
                  + 1)
       \<and> (state (recordFailure now cb) = StateClosed \<longleftrightarrow>
            int (length (filter (\<lambda>ts. now - ts < failureWindow cb) (failureTimestamps cb))) + 1
              < failureThreshold cb)
       \<and> failureTimestamps (recordFailure now cb)
           = filter (\<lambda>ts. now - ts < failureWindow cb) (failureTimestamps cb) @ [now]"
  using assms
  by (simp add: recordFailure_state recordFailure_timestamps in_window_iff)

theorem aged_out_failures_do_not_count_witness:
  "state (record_failures [0, 0, 0, 0] (NewCircuitBreaker ''payment'' 5 (30 * Second)))
     = StateClosed
   \<and> failureTimestamps (record_failures [0, 0, 0, 0] (NewCircuitBreaker ''payment'' 5 (30 * Second)))
     = [0, 0, 0, 0]
   \<and> state (record_failures [0, 0, 0, 0, 11 * Second]
              (NewCircuitBreaker ''payment'' 5 (30 * Second)))
     = StateClosed
   \<and> failureTimestamps
        (record_failures [0, 0, 0, 0, 11 * Second] (NewCircuitBreaker ''payment'' 5 (30 * Second)))
     = [11 * Second]"
proof -
  define cb4 where
    "cb4 = record_failures [0, 0, 0, 0] (NewCircuitBreaker ''payment'' 5 (30 * Second))"
  have s4: "state cb4 = StateClosed"
    and f4: "failureTimestamps cb4 = [0, 0, 0, 0]"
    and w4: "failureWindow cb4 = 10 * Second"
    and t4: "failureThreshold cb4 = 5"
    by (simp_all add: cb4_def recordFailure_state recordFailure_timestamps recordFailure_config
        windowStart_of_def NewCircuitBreaker_def time_after_def time_add_def neg_duration_def
        minDuration_def Second_def)
  have last: "record_failures [0, 0, 0, 0, 11 * Second]
                (NewCircuitBreaker ''payment'' 5 (30 * Second))
      = recordFailure (11 * Second) cb4"
    by (simp add: cb4_def)
  have pos: "0 < failureWindow cb4"
    by (simp add: w4 Second_def)
  from aged_out_failures_do_not_count [OF s4 pos, of "11 * Second"] show ?thesis
    unfolding last cb4_def [symmetric] by (simp add: s4 f4 w4 t4 Second_def)
qed

section \<open>Half-open trials\<close>

text \<open>
  C5. From HalfOpen, recording one success closes the breaker and empties the failure
  history; recording one failure at time \<open>now\<close> reopens the breaker, whatever the
  threshold and the history are, and sets \<open>lastFailureTime\<close> to \<open>now\<close>, from which
  the open timeout is measured.
\<close>

theorem halfopen_trial_outcome:
  assumes "state cb = StateHalfOpen"
  shows "state (recordSuccess cb) = StateClosed
       \<and> failureTimestamps (recordSuccess cb) = []
       \<and> state (recordFailure now cb) = StateOpen
       \<and> lastFailureTime (recordFailure now cb) = now"
  using assms
  by (simp add: recordSuccess_def setState_def recordFailure_state
      recordFailure_lastFailureTime)

theorem halfopen_trial_outcome_witness:
  "state (snd (canAttempt (31 * Second)
       (record_failures [0, 0, 0, 0, 0] (NewCircuitBreaker ''payment'' 5 (30 * Second)))))
     = StateHalfOpen
   \<and> failureTimestamps (snd (canAttempt (31 * Second)
       (record_failures [0, 0, 0, 0, 0] (NewCircuitBreaker ''payment'' 5 (30 * Second)))))
     = [0, 0, 0, 0, 0]
   \<and> state (recordSuccess (snd (canAttempt (31 * Second)
       (record_failures [0, 0, 0, 0, 0] (NewCircuitBreaker ''payment'' 5 (30 * Second))))))
     = StateClosed
   \<and> failureTimestamps (recordSuccess (snd (canAttempt (31 * Second)
       (record_failures [0, 0, 0, 0, 0] (NewCircuitBreaker ''payment'' 5 (30 * Second))))))
     = []
   \<and> state (recordFailure (32 * Second) (snd (canAttempt (31 * Second)
       (record_failures [0, 0, 0, 0, 0] (NewCircuitBreaker ''payment'' 5 (30 * Second))))))
     = StateOpen
   \<and> lastFailureTime (recordFailure (32 * Second) (snd (canAttempt (31 * Second)
       (record_failures [0, 0, 0, 0, 0] (NewCircuitBreaker ''payment'' 5 (30 * Second))))))
     = 32 * Second"
proof -
  define cb where
    "cb = record_failures [0, 0, 0, 0, 0] (NewCircuitBreaker ''payment'' 5 (30 * Second))"
  define half where "half = snd (canAttempt (31 * Second) cb)"
  have op: "state cb = StateOpen" and f5: "failureTimestamps cb = [0, 0, 0, 0, 0]"
    by (simp_all add: cb_def recordFailure_state recordFailure_timestamps recordFailure_config
        windowStart_of_def NewCircuitBreaker_def time_after_def time_add_def neg_duration_def
        minDuration_def Second_def)
  have tmo: "timeout cb = 30 * Second" and lft: "lastFailureTime cb = 0"
    by (simp_all add: cb_def recordFailure_config recordFailure_lastFailureTime
        NewCircuitBreaker_def)
  have half_eq: "half = setState StateHalfOpen cb"
    by (simp add: half_def canAttempt_def op tmo lft time_since_def time_sub_def maxDuration_def
        minDuration_def Second_def)
  have hs: "state half = StateHalfOpen" and hf: "failureTimestamps half = [0, 0, 0, 0, 0]"
    by (simp_all add: half_eq setState_def f5)
  from halfopen_trial_outcome [OF hs, of "32 * Second"] hs hf show ?thesis
    unfolding cb_def [symmetric] unfolding half_def [symmetric] by simp
qed

section \<open>Success and failure while closed\<close>

text \<open>
  The breaker with a failure counter does reset its counter on a success while Closed;
  the breaker with the sliding window, which the properties below are about, does not
  touch its history.
\<close>

lemma fc_recordSuccess_closed:
  "fc_state cb = StateClosed \<Longrightarrow> fc_recordSuccess cb = cb\<lparr>fc_failureCount := 0\<rparr>"
  by (simp add: fc_recordSuccess_def)

text \<open>
  C6. Recording a success on a Closed breaker changes nothing at all, so the failure
  history stays as it is. A failure at \<open>now\<close> on a Closed breaker that, together with
  the failures less than \<open>failureWindow\<close> old, stays below the threshold is appended
  to the history, becomes \<open>lastFailureTime\<close>, and leaves the breaker Closed.
\<close>

theorem closed_success_keeps_history:
  assumes "state cb = StateClosed"
  shows "recordSuccess cb = cb
       \<and> failureTimestamps (recordSuccess cb) = failureTimestamps cb
       \<and> (0 < failureWindow cb
            \<and> int (length (filter (\<lambda>ts. now - ts < failureWindow cb) (failureTimestamps cb)))
                  + 1 < failureThreshold cb \<longrightarrow>
            state (recordFailure now cb) = StateClosed
          \<and> failureTimestamps (recordFailure now cb)
              = filter (\<lambda>ts. now - ts < failureWindow cb) (failureTimestamps cb) @ [now]
          \<and> lastFailureTime (recordFailure now cb) = now)"
proof -
  have success: "recordSuccess cb = cb"
    using assms by (simp add: recordSuccess_def)
  have failure: "state (recordFailure now cb) = StateClosed
          \<and> failureTimestamps (recordFailure now cb)
              = filter (\<lambda>ts. now - ts < failureWindow cb) (failureTimestamps cb) @ [now]
          \<and> lastFailureTime (recordFailure now cb) = now"
    if below: "0 < failureWindow cb
            \<and> int (length (filter (\<lambda>ts. now - ts < failureWindow cb) (failureTimestamps cb)))
                  + 1 < failureThreshold cb"
    using assms below
    by (simp add: recordFailure_state recordFailure_timestamps recordFailure_lastFailureTime
        in_window_iff)
  from success failure show ?thesis by simp
qed

theorem closed_success_keeps_history_witness:
  "state (record_failures [0, Second] (NewCircuitBreaker ''payment'' 5 (30 * Second)))
     = StateClosed
   \<and> failureTimestamps
        (recordSuccess (record_failures [0, Second] (NewCircuitBreaker ''payment'' 5 (30 * Second))))
     = [0, Second]
   \<and> state (recordFailure (2 * Second)
        (record_failures [0, Second] (NewCircuitBreaker ''payment'' 5 (30 * Second))))
     = StateClosed
   \<and> failureTimestamps (recordFailure (2 * Second)
        (record_failures [0, Second] (NewCircuitBreaker ''payment'' 5 (30 * Second))))
     = [0, Second, 2 * Second]"
proof -
  define cb2 where
    "cb2 = record_failures [0, Second] (NewCircuitBreaker ''payment'' 5 (30 * Second))"
  have s2: "state cb2 = StateClosed"
    and f2: "failureTimestamps cb2 = [0, Second]"
    and w2: "failureWindow cb2 = 10 * Second"
    and t2: "failureThreshold cb2 = 5"
    by (simp_all add: cb2_def recordFailure_state recordFailure_timestamps recordFailure_config
        windowStart_of_def NewCircuitBreaker_def time_after_def time_add_def neg_duration_def
        minDuration_def Second_def)
  have pos: "0 < failureWindow cb2"
    by (simp add: w2 Second_def)
  have below: "int (length (filter (\<lambda>ts. 2 * Second - ts < failureWindow cb2)
                  (failureTimestamps cb2))) + 1 < failureThreshold cb2"
    by (simp add: f2 w2 t2 Second_def)
  from closed_success_keeps_history [OF s2, of "2 * Second"] pos below show ?thesis
    unfolding cb2_def [symmetric] by (simp add: s2 f2 w2 Second_def)
qed

section \<open>The result that accompanies an error\<close>

lemma Execute_returned_error:
  "CircuitBreaker_Execute tA tR zero fn (cb, w) = Some (Returned (r, Some e), cb', w')
     \<Longrightarrow> r = zero"
  by (auto simp: CircuitBreaker_Execute_def
      split: prod.splits bool.splits option.splits outcome.splits)

lemma Execute_returned_nil:
  "CircuitBreaker_Execute tA tR zero fn (cb, w) = Some (Returned (r, None), cb', w')
     \<Longrightarrow> fn w = Some (Returned (r, None), w')"
  by (auto simp: CircuitBreaker_Execute_def
      split: prod.splits bool.splits option.splits outcome.splits)

lemma Execute_not_admitted:
  "\<not> fst (canAttempt tA cb) \<Longrightarrow>
     CircuitBreaker_Execute tA tR zero fn (cb, w)
       = Some (Returned (zero, Some ErrCircuitOpen),
               (snd (canAttempt tA cb))
                 \<lparr>circuitBreakerFailures :=
                    circuitBreakerFailures (snd (canAttempt tA cb)) + 1\<rparr>, w)"
  by (cases "canAttempt tA cb") (simp add: CircuitBreaker_Execute_def)

lemma Execute_callable_failed:
  "fst (canAttempt tA cb) \<Longrightarrow> fn w = Some (Returned (r, Some e), w') \<Longrightarrow>
     CircuitBreaker_Execute tA tR zero fn (cb, w)
       = Some (Returned (zero, Some e), recordFailure tR (snd (canAttempt tA cb)), w')"
  by (cases "canAttempt tA cb") (simp add: CircuitBreaker_Execute_def)

lemma Execute_callable_succeeded:
  "fst (canAttempt tA cb) \<Longrightarrow> fn w = Some (Returned (r, None), w') \<Longrightarrow>
     CircuitBreaker_Execute tA tR zero fn (cb, w)
       = Some (Returned (r, None), recordSuccess (snd (canAttempt tA cb)), w')"
  by (cases "canAttempt tA cb") (simp add: CircuitBreaker_Execute_def)

lemma fc_Execute_returned_error:
  "fc_Execute tA tR zero fn (cb, w) = Some (Returned (r, Some e), cb', w') \<Longrightarrow> r = zero"
  by (auto simp: fc_Execute_def split: prod.splits bool.splits option.splits outcome.splits)

lemma fc_Execute_returned_nil:
  "fc_Execute tA tR zero fn (cb, w) = Some (Returned (r, None), cb', w')
     \<Longrightarrow> fn w = Some (Returned (r, None), w')"
  by (auto simp: fc_Execute_def split: prod.splits bool.splits option.splits outcome.splits)

lemma fc_Execute_not_admitted:
  "\<not> fst (fc_canAttempt tA cb) \<Longrightarrow>
     fc_Execute tA tR zero fn (cb, w)
       = Some (Returned (zero, Some ErrCircuitOpen),
               (snd (fc_canAttempt tA cb))
                 \<lparr>fc_circuitBreakerFailures :=
                    fc_circuitBreakerFailures (snd (fc_canAttempt tA cb)) + 1\<rparr>, w)"
  by (cases "fc_canAttempt tA cb") (simp add: fc_Execute_def)

lemma fc_Execute_callable_failed:
  "fst (fc_canAttempt tA cb) \<Longrightarrow> fn w = Some (Returned (r, Some e), w') \<Longrightarrow>
     fc_Execute tA tR zero fn (cb, w)
       = Some (Returned (zero, Some e), fc_recordFailure tR (snd (fc_canAttempt tA cb)), w')"
  by (cases "fc_canAttempt tA cb") (simp add: fc_Execute_def)

lemma fc_Execute_callable_succeeded:
  "fst (fc_canAttempt tA cb) \<Longrightarrow> fn w = Some (Returned (r, None), w') \<Longrightarrow>
     fc_Execute tA tR zero fn (cb, w)
       = Some (Returned (r, None), fc_recordSuccess (snd (fc_canAttempt tA cb)), w')"
  by (cases "fc_canAttempt tA cb") (simp add: fc_Execute_def)

text \<open>
  C10. For both breakers. Whenever \<^verbatim>\<open>Execute\<close> returns with a non-nil error, the
  result beside it is the zero value, and whenever it returns with a nil error, result
  and nil error are what the callable returned. What it returns is fixed by the
  admission check and the callable: a call that is not admitted returns the zero value
  with \<open>ErrCircuitOpen\<close> and leaves the callable's world untouched; an admitted call
  whose callable returns a result \<open>r\<close> with an error \<open>e\<close> returns the zero value with
  \<open>e\<close>, whatever \<open>r\<close> is; an admitted call whose callable returns \<open>r\<close> with a nil
  error returns \<open>r\<close> with a nil error.
\<close>

theorem execute_error_has_zero_result:
  "(CircuitBreaker_Execute tA tR zero fn (cb, w) = Some (Returned (r, Some e), cb', w')
      \<longrightarrow> r = zero)
 \<and> (CircuitBreaker_Execute tA tR zero fn (cb, w) = Some (Returned (r, None), cb', w')
      \<longrightarrow> fn w = Some (Returned (r, None), w'))
 \<and> (\<not> fst (canAttempt tA cb) \<longrightarrow>
      CircuitBreaker_Execute tA tR zero fn (cb, w)
        = Some (Returned (zero, Some ErrCircuitOpen),
                (snd (canAttempt tA cb))
                  \<lparr>circuitBreakerFailures :=
                     circuitBreakerFailures (snd (canAttempt tA cb)) + 1\<rparr>, w))
 \<and> (fst (canAttempt tA cb) \<and> fn w = Some (Returned (r, Some e), w') \<longrightarrow>
      CircuitBreaker_Execute tA tR zero fn (cb, w)
        = Some (Returned (zero, Some e), recordFailure tR (snd (canAttempt tA cb)), w'))
 \<and> (fst (canAttempt tA cb) \<and> fn w = Some (Returned (r, None), w') \<longrightarrow>
      CircuitBreaker_Execute tA tR zero fn (cb, w)
        = Some (Returned (r, None), recordSuccess (snd (canAttempt tA cb)), w'))
 \<and> (fc_Execute tA tR zero fn (fcb, w) = Some (Returned (r, Some e), fcb', w')
      \<longrightarrow> r = zero)
 \<and> (fc_Execute tA tR zero fn (fcb, w) = Some (Returned (r, None), fcb', w')
      \<longrightarrow> fn w = Some (Returned (r, None), w'))
 \<and> (\<not> fst (fc_canAttempt tA fcb) \<longrightarrow>
      fc_Execute tA tR zero fn (fcb, w)
        = Some (Returned (zero, Some ErrCircuitOpen),
                (snd (fc_canAttempt tA fcb))
                  \<lparr>fc_circuitBreakerFailures :=
                     fc_circuitBreakerFailures (snd (fc_canAttempt tA fcb)) + 1\<rparr>, w))
 \<and> (fst (fc_canAttempt tA fcb) \<and> fn w = Some (Returned (r, Some e), w') \<longrightarrow>
      fc_Execute tA tR zero fn (fcb, w)
        = Some (Returned (zero, Some e), fc_recordFailure tR (snd (fc_canAttempt tA fcb)), w'))
 \<and> (fst (fc_canAttempt tA fcb) \<and> fn w = Some (Returned (r, None), w') \<longrightarrow>
      fc_Execute tA tR zero fn (fcb, w)
        = Some (Returned (r, None), fc_recordSuccess (snd (fc_canAttempt tA fcb)), w'))"
  using Execute_returned_error [of tA tR zero fn cb w r e cb' w']
    Execute_returned_nil [of tA tR zero fn cb w r cb' w']
    Execute_not_admitted [of tA cb tR zero fn w]
    Execute_callable_failed [of tA cb fn w r e w' tR zero]
    Execute_callable_succeeded [of tA cb fn w r w' tR zero]
    fc_Execute_returned_error [of tA tR zero fn fcb w r e fcb' w']
    fc_Execute_returned_nil [of tA tR zero fn fcb w r fcb' w']
    fc_Execute_not_admitted [of tA fcb tR zero fn w]
    fc_Execute_callable_failed [of tA fcb fn w r e w' tR zero]
    fc_Execute_callable_succeeded [of tA fcb fn w r w' tR zero]
  by blast

theorem execute_error_has_zero_result_witness:
  "CircuitBreaker_Execute 0 1 0 call_failing (NewCircuitBreaker ''payment'' 5 (30 * Second), 0)
     = Some (Returned (0, Some (CallError ''status 500'')),
             recordFailure 1 (NewCircuitBreaker ''payment'' 5 (30 * Second)), 1)
   \<and> CircuitBreaker_Execute 0 1 0 call_ok (NewCircuitBreaker ''payment'' 5 (30 * Second), 0)
     = Some (Returned (42, None),
             recordSuccess (NewCircuitBreaker ''payment'' 5 (30 * Second)), 1)
   \<and> map_option fst
       (CircuitBreaker_Execute (10 * Second) (11 * Second) 0 call_ok
          (record_failures [0, 0, 0, 0, 0] (NewCircuitBreaker ''payment'' 5 (30 * Second)), 0))
     = Some (Returned (0, Some ErrCircuitOpen))
   \<and> fc_Execute 0 1 0 call_failing (fc_NewCircuitBreaker ''order'' 5 (30 * Second), 0)
     = Some (Returned (0, Some (CallError ''status 500'')),
             fc_recordFailure 1 (fc_NewCircuitBreaker ''order'' 5 (30 * Second)), 1)
   \<and> fc_Execute 0 1 0 call_ok (fc_NewCircuitBreaker ''order'' 5 (30 * Second), 0)
     = Some (Returned (42, None),
             fc_recordSuccess (fc_NewCircuitBreaker ''order'' 5 (30 * Second)), 1)
   \<and> map_option fst
       (fc_Execute 0 1 0 call_ok
          (fc_setState StateOpen (fc_NewCircuitBreaker ''order'' 5 (30 * Second))
             \<lparr>fc_lastFailureTime := 0\<rparr>, 0))
     = Some (Returned (0, Some ErrCircuitOpen))"
proof -
  define cb0 where "cb0 = NewCircuitBreaker ''payment'' 5 (30 * Second)"
  define cb5 where "cb5 = record_failures [0, 0, 0, 0, 0] cb0"
  define fc0 where "fc0 = fc_NewCircuitBreaker ''order'' 5 (30 * Second)"
  define fc1 where "fc1 = fc_setState StateOpen fc0\<lparr>fc_lastFailureTime := 0\<rparr>"
  have adm: "canAttempt 0 cb0 = (True, cb0)"
    by (simp add: canAttempt_def cb0_def NewCircuitBreaker_def)
  have fadm: "fc_canAttempt 0 fc0 = (True, fc0)"
    by (simp add: fc_canAttempt_def fc0_def fc_NewCircuitBreaker_def)
  have s5: "state cb5 = StateOpen"
    by (simp add: cb5_def cb0_def recordFailure_state recordFailure_timestamps
        recordFailure_config windowStart_of_def NewCircuitBreaker_def time_after_def
        time_add_def neg_duration_def minDuration_def Second_def)
  have tmo: "timeout cb5 = 30 * Second" and lft: "lastFailureTime cb5 = 0"
    by (simp_all add: cb5_def cb0_def recordFailure_config recordFailure_lastFailureTime
        NewCircuitBreaker_def)
  have rej: "\<not> fst (canAttempt (10 * Second) cb5)"
    by (simp add: canAttempt_def s5 tmo lft time_since_def time_sub_def maxDuration_def
        minDuration_def Second_def)
  have frej: "\<not> fst (fc_canAttempt 0 fc1)"
    by (simp add: fc_canAttempt_def fc1_def fc0_def fc_setState_def fc_NewCircuitBreaker_def
        time_since_def time_sub_def maxDuration_def minDuration_def Second_def)
  have wf: "call_failing 0 = Some (Returned (7, Some (CallError ''status 500'')), 1)"
    and wo: "call_ok 0 = Some (Returned (42, None), 1)"
    by (simp_all add: call_failing_def call_ok_def)
  have a: "CircuitBreaker_Execute 0 1 0 call_failing (cb0, 0)
      = Some (Returned (0, Some (CallError ''status 500'')), recordFailure 1 cb0, 1)"
    and fa: "fc_Execute 0 1 0 call_failing (fc0, 0)
      = Some (Returned (0, Some (CallError ''status 500'')), fc_recordFailure 1 fc0, 1)"
    using execute_error_has_zero_result
        [where tA = 0 and tR = 1 and zero = 0 and fn = call_failing and w = 0 and r = 7
           and e = "CallError ''status 500''" and w' = 1 and cb = cb0 and fcb = fc0]
      adm fadm wf
    by simp_all
  have b: "CircuitBreaker_Execute 0 1 0 call_ok (cb0, 0)
      = Some (Returned (42, None), recordSuccess cb0, 1)"
    and fb: "fc_Execute 0 1 0 call_ok (fc0, 0)
      = Some (Returned (42, None), fc_recordSuccess fc0, 1)"
    using execute_error_has_zero_result
        [where tA = 0 and tR = 1 and zero = 0 and fn = call_ok and w = 0 and r = 42
           and w' = 1 and cb = cb0 and fcb = fc0]
      adm fadm wo
    by simp_all
  have c: "map_option fst (CircuitBreaker_Execute (10 * Second) (11 * Second) 0 call_ok (cb5, 0))
      = Some (Returned (0, Some ErrCircuitOpen))"
    using execute_error_has_zero_result
        [where tA = "10 * Second" and tR = "11 * Second" and zero = 0 and fn = call_ok
           and w = 0 and cb = cb5]
      rej
    by simp
  have fc: "map_option fst (fc_Execute 0 1 0 call_ok (fc1, 0))
      = Some (Returned (0, Some ErrCircuitOpen))"
    using execute_error_has_zero_result
        [where tA = 0 and tR = 1 and zero = 0 and fn = call_ok and w = 0 and fcb = fc1]
      frej
    by simp
  show ?thesis
    unfolding cb0_def [symmetric] fc0_def [symmetric]
    unfolding cb5_def [symmetric] fc1_def [symmetric]
    by (simp add: a b c fa fb fc)
qed

section \<open>Facts about the bulkhead\<close>

lemma TryExecute_select_eq:
  "TryExecute_select b = Some (if can_send (semaphore b) then CaseSend else CaseDefault)"
  by (simp add: TryExecute_select_def go_select_def)

lemma Execute_select_eq:
  "Execute_select pick ctx b =
     Some (if can_send (semaphore b)
           then (if ctx = None \<or> even pick then CaseSend else CaseDone)
           else (if ctx = None then CaseDefault else CaseDone))"
proof (cases "even pick")
  case True
  then have "pick mod Suc (Suc 0) = 0" by presburger
  then show ?thesis
    using True by (simp add: Execute_select_def go_select_def)
next
  case False
  then have "pick mod Suc (Suc 0) = Suc 0" by presburger
  then show ?thesis
    using False by (simp add: Execute_select_def go_select_def)
qed

lemma release_acquire: "release (acquire b) = Some b"
  by (simp add: release_def acquire_def recv_def send_def)

lemma length_filter_update:
  "i < length xs \<Longrightarrow>
     length (filter P (xs[i := y])) + (if P (xs ! i) then 1 else 0)
       = length (filter P xs) + (if P y then 1 else 0)"
proof (induction xs arbitrary: i)
  case Nil
  then show ?case by simp
next
  case (Cons x xs)
  then show ?case by (cases i) auto
qed

lemma enter_balanced:
  assumes "balanced p" and "enter (Some c) ctx p = Some q"
    and "c = CaseSend \<longrightarrow> can_send (semaphore (bulkhead p))"
  shows "balanced q \<and> chan_cap (semaphore (bulkhead q)) = chan_cap (semaphore (bulkhead p))"
  using assms
  by (cases c)
    (auto simp: enter_def balanced_def holding_def GetActiveCount_def acquire_def reject_def
      send_def can_send_def)

lemma fire_balanced:
  assumes "balanced p" and "fire e p = Some q"
  shows "balanced q \<and> chan_cap (semaphore (bulkhead q)) = chan_cap (semaphore (bulkhead p))"
proof (cases e)
  case (Call_Execute pick ctx)
  then show ?thesis
    using assms enter_balanced [of p _ ctx q]
    by (auto simp: Execute_select_eq split: if_splits)
next
  case Call_TryExecute
  then show ?thesis
    using assms enter_balanced [of p _ None q]
    by (auto simp: TryExecute_select_eq split: if_splits)
next
  case (Callable_Ends i r)
  then have i: "i < length (phases p)" "phases p ! i = Executing"
    and q: "q = p\<lparr>phases := (phases p)[i := Unwinding r]\<rparr>"
    using assms(2) by (auto split: if_splits)
  have "length (filter holds_slot ((phases p)[i := Unwinding r]))
      = length (filter holds_slot (phases p))"
    using length_filter_update [OF i(1), of holds_slot "Unwinding r"] i(2) by simp
  then show ?thesis
    using assms(1) by (simp add: q balanced_def holding_def)
next
  case (Deferred_Runs i)
  then obtain r b where i: "i < length (phases p)" "phases p ! i = Unwinding r"
    and rel: "release (bulkhead p) = Some b"
    and q: "q = p\<lparr>bulkhead := b, phases := (phases p)[i := Completed r]\<rparr>"
    using assms(2) by (auto split: if_splits call_phase.splits option.splits)
  have cnt: "length (filter holds_slot ((phases p)[i := Completed r])) + 1
      = length (filter holds_slot (phases p))"
    using length_filter_update [OF i(1), of holds_slot "Completed r"] i(2) by simp
  have b: "chan_len (semaphore b) + 1 = chan_len (semaphore (bulkhead p))"
    "chan_cap (semaphore b) = chan_cap (semaphore (bulkhead p))"
    using rel by (auto simp: release_def recv_def split: if_splits option.splits)
  show ?thesis
    using assms(1) cnt b by (simp add: q balanced_def holding_def GetActiveCount_def)
qed

lemma run_balanced:
  "balanced p \<Longrightarrow> run es p = Some q \<Longrightarrow>
     balanced q \<and> chan_cap (semaphore (bulkhead q)) = chan_cap (semaphore (bulkhead p))"
proof (induction es arbitrary: p)
  case Nil
  then show ?case by simp
next
  case (Cons e es)
  then obtain p1 where f: "fire e p = Some p1" and r: "run es p1 = Some q"
    by (auto split: option.splits)
  from fire_balanced [OF Cons.prems(1) f] Cons.IH [OF _ r] show ?case by simp
qed

lemma run_snoc:
  "run (es @ [e]) p = (case run es p of None \<Rightarrow> None | Some q \<Rightarrow> fire e q)"
  by (induction es arbitrary: p) (auto split: option.splits)

lemma NewBulkhead_Returned:
  "NewBulkhead name n = Returned b \<Longrightarrow>
     0 \<le> n \<and> chan_cap (semaphore b) = nat n \<and> chan_len (semaphore b) = 0"
  by (auto simp: NewBulkhead_def make_chan_def split: if_splits)

lemma fresh_balanced: "chan_len (semaphore b) = 0 \<Longrightarrow> balanced (fresh_pool b)"
  by (simp add: balanced_def fresh_pool_def holding_def GetActiveCount_def)

lemma executing_le_holding: "executing p \<le> holding p"
proof -
  have "length (filter (\<lambda>c. c = Executing) xs) \<le> length (filter holds_slot xs)" for xs
    by (induction xs) auto
  then show ?thesis by (simp add: executing_def holding_def)
qed

lemma unwinding_release:
  assumes "balanced p" and "i < length (phases p)" and "phases p ! i = Unwinding r"
  shows "\<exists>b. release (bulkhead p) = Some b
           \<and> GetActiveCount b + 1 = GetActiveCount (bulkhead p)"
proof -
  have "holds_slot (phases p ! i)" using assms(3) by simp
  then have "phases p ! i \<in> set (filter holds_slot (phases p))"
    using assms(2) by simp
  then have "0 < holding p"
    unfolding holding_def by (metis length_pos_if_in_set)
  then have "chan_len (semaphore (bulkhead p)) \<noteq> 0"
    using assms(1) by (simp add: balanced_def GetActiveCount_def)
  then show ?thesis
    by (simp add: release_def recv_def GetActiveCount_def)
qed

lemma rejected_when_full:
  assumes "\<not> can_send (semaphore b)"
  shows "Bulkhead_TryExecute fn (b, w) = Some (Returned (Some ErrBulkheadFull), reject b, w)"
    and "Bulkhead_Execute pick None fn (b, w) = Some (Returned (Some ErrBulkheadFull), reject b, w)"
    and "Bulkhead_Execute pick (Some e) fn (b, w) = Some (Returned (Some e), b, w)"
  using assms
  by (simp_all add: Bulkhead_TryExecute_def Bulkhead_Execute_def TryExecute_select_eq
      Execute_select_eq)

lemma admitted_when_room:
  assumes "can_send (semaphore b)"
  shows "Bulkhead_TryExecute fn (b, w) = run_admitted fn (b, w)"
    and "Bulkhead_Execute pick None fn (b, w) = run_admitted fn (b, w)"
    and "Bulkhead_Execute pick (Some e) fn (b, w)
           = (if even pick then run_admitted fn (b, w) else Some (Returned (Some e), b, w))"
  using assms
  by (simp_all add: Bulkhead_TryExecute_def Bulkhead_Execute_def TryExecute_select_eq
      Execute_select_eq)

lemma run_admitted_returns:
  "fn w = Some (r, w1) \<Longrightarrow> run_admitted fn (b, w) = Some (r, b, w1)"
  by (simp add: run_admitted_def Let_def release_acquire)

lemma reachable_balanced:
  assumes "NewBulkhead name n = Returned b0" and "run es (fresh_pool b0) = Some p"
  shows "balanced p" and "chan_cap (semaphore (bulkhead p)) = nat n"
proof -
  have b0: "chan_cap (semaphore b0) = nat n" "chan_len (semaphore b0) = 0"
    using NewBulkhead_Returned [OF assms(1)] by simp_all
  from run_balanced [OF fresh_balanced [OF b0(2)] assms(2)] b0(1)
  show "balanced p" and "chan_cap (semaphore (bulkhead p)) = nat n"
    by (simp_all add: fresh_pool_def)
qed

section \<open>Capacity\<close>

text \<open>
  C7, as stated, fails for \<^verbatim>\<open>Execute\<close>: on a bulkhead of capacity 2 with two calls in
  flight, \<^verbatim>\<open>Execute\<close> with a cancelled context returns the context's error, not
  \<open>ErrBulkheadFull\<close>.
\<close>

theorem full_bulkhead_reports_cancellation:
  "NewBulkhead ''payment'' 2 = Returned pool_of_two
   \<and> map_option bulkhead (run [Call_TryExecute, Call_TryExecute] (fresh_pool pool_of_two))
       = Some (acquire (acquire pool_of_two))
   \<and> GetActiveCount (acquire (acquire pool_of_two)) = 2
   \<and> Bulkhead_Execute 0 (Some Canceled) work_ok (acquire (acquire pool_of_two), 0)
       = Some (Returned (Some Canceled), acquire (acquire pool_of_two), 0)"
  by (simp add: NewBulkhead_def make_chan_def pool_of_two_def fresh_pool_def enter_def
      TryExecute_select_eq Execute_select_eq can_send_def acquire_def send_def
      GetActiveCount_def Bulkhead_Execute_def)

text \<open>
  C7, amended. For a bulkhead constructed with capacity \<open>n\<close>, after any schedule of
  concurrent calls the in-flight count is at most \<open>n\<close>, and so is the number of
  callables executing. When \<open>n\<close> calls are in flight, \<^verbatim>\<open>TryExecute\<close>, and
  \<^verbatim>\<open>Execute\<close> with a context that is not done, return \<open>ErrBulkheadFull\<close>;
  \<^verbatim>\<open>Execute\<close> with a context that is done returns the context's error. In each case
  the call returns (it does not wait) and the world of the callable is untouched.
\<close>

theorem bulkhead_never_exceeds_capacity:
  assumes "NewBulkhead name n = Returned b0" and "run es (fresh_pool b0) = Some p"
  shows "GetActiveCount (bulkhead p) \<le> nat n
       \<and> executing p \<le> nat n
       \<and> (GetActiveCount (bulkhead p) = nat n \<longrightarrow>
            Bulkhead_TryExecute fn (bulkhead p, w)
              = Some (Returned (Some ErrBulkheadFull), reject (bulkhead p), w)
          \<and> Bulkhead_Execute pick None fn (bulkhead p, w)
              = Some (Returned (Some ErrBulkheadFull), reject (bulkhead p), w)
          \<and> Bulkhead_Execute pick (Some e) fn (bulkhead p, w)
              = Some (Returned (Some e), bulkhead p, w))"
proof -
  note bal = reachable_balanced [OF assms]
  have le: "GetActiveCount (bulkhead p) \<le> nat n"
    using bal by (simp add: balanced_def)
  have ex: "executing p \<le> nat n"
    using bal executing_le_holding [of p] by (simp add: balanced_def)
  have full: "\<not> can_send (semaphore (bulkhead p))" if "GetActiveCount (bulkhead p) = nat n"
    using that bal(2) by (simp add: can_send_def GetActiveCount_def)
  show ?thesis
    using le ex by (simp add: rejected_when_full full)
qed

theorem bulkhead_never_exceeds_capacity_witness:
  "NewBulkhead ''payment'' 2 = Returned pool_of_two
   \<and> map_option bulkhead
        (run [Call_TryExecute, Call_Execute 0 None, Call_TryExecute, Callable_Ends 0 (Returned None)]
           (fresh_pool pool_of_two))
       = Some (reject (acquire (acquire pool_of_two)))
   \<and> GetActiveCount (reject (acquire (acquire pool_of_two))) = 2
   \<and> Bulkhead_TryExecute work_ok (reject (acquire (acquire pool_of_two)), 0)
       = Some (Returned (Some ErrBulkheadFull), reject (reject (acquire (acquire pool_of_two))), 0)"
proof -
  define es where
    "es = [Call_TryExecute, Call_Execute 0 None, Call_TryExecute, Callable_Ends 0 (Returned None)]"
  define p where
    "p = \<lparr>bulkhead = reject (acquire (acquire pool_of_two)),
          phases = [Unwinding (Returned None), Executing,
                    Completed (Returned (Some ErrBulkheadFull))]\<rparr>"
  have new: "NewBulkhead ''payment'' 2 = Returned pool_of_two"
    by (simp add: NewBulkhead_def make_chan_def pool_of_two_def)
  have run: "run es (fresh_pool pool_of_two) = Some p"
    by (simp add: es_def p_def fresh_pool_def pool_of_two_def enter_def TryExecute_select_eq
        Execute_select_eq can_send_def acquire_def send_def reject_def)
  have cnt: "GetActiveCount (bulkhead p) = nat 2"
    by (simp add: p_def GetActiveCount_def reject_def acquire_def send_def pool_of_two_def)
  from bulkhead_never_exceeds_capacity [OF new run, of work_ok 0] cnt new run
  show ?thesis
    unfolding es_def [symmetric] by (simp add: p_def)
qed

section \<open>Release\<close>

text \<open>
  C8. After any schedule of concurrent calls on a bulkhead, the in-flight count is the
  number of calls between their admission and their deferred function: a call holds its
  slot while its callable executes and until the deferred function has run. For a call
  whose callable has ended, with a return value or with a panic, the deferred function
  can run and takes exactly one element from the semaphore. A call of
  \<^verbatim>\<open>TryExecute\<close> or \<^verbatim>\<open>Execute\<close> that is admitted and runs with no other call in
  between returns what the callable returned, or its panic, and leaves the bulkhead, so
  also its in-flight count, as it was before the call.
\<close>

theorem admitted_call_releases_slot:
  assumes "NewBulkhead name n = Returned b0" and "run es (fresh_pool b0) = Some p"
  shows "GetActiveCount (bulkhead p) = holding p
       \<and> (i < length (phases p) \<and> phases p ! i = Executing \<longrightarrow>
            fire (Callable_Ends i r) p = Some (p\<lparr>phases := (phases p)[i := Unwinding r]\<rparr>))
       \<and> (i < length (phases p) \<and> phases p ! i = Unwinding r \<longrightarrow>
            (\<exists>b. release (bulkhead p) = Some b
                \<and> GetActiveCount b + 1 = GetActiveCount (bulkhead p)
                \<and> fire (Deferred_Runs i) p
                    = Some (p\<lparr>bulkhead := b, phases := (phases p)[i := Completed r]\<rparr>)))
       \<and> (TryExecute_select (bulkhead p) = Some CaseSend \<and> fn w = Some (r, w1) \<longrightarrow>
            Bulkhead_TryExecute fn (bulkhead p, w) = Some (r, bulkhead p, w1))
       \<and> (Execute_select pick ctx (bulkhead p) = Some CaseSend \<and> fn w = Some (r, w1) \<longrightarrow>
            Bulkhead_Execute pick ctx fn (bulkhead p, w) = Some (r, bulkhead p, w1))"
proof -
  note bal = reachable_balanced [OF assms]
  have count: "GetActiveCount (bulkhead p) = holding p"
    using bal by (simp add: balanced_def)
  have ends: "fire (Callable_Ends i r) p = Some (p\<lparr>phases := (phases p)[i := Unwinding r]\<rparr>)"
    if "i < length (phases p) \<and> phases p ! i = Executing"
    using that by simp
  have deferred: "\<exists>b. release (bulkhead p) = Some b
                \<and> GetActiveCount b + 1 = GetActiveCount (bulkhead p)
                \<and> fire (Deferred_Runs i) p
                    = Some (p\<lparr>bulkhead := b, phases := (phases p)[i := Completed r]\<rparr>)"
    if unw: "i < length (phases p) \<and> phases p ! i = Unwinding r"
  proof -
    obtain b where b: "release (bulkhead p) = Some b"
        "GetActiveCount b + 1 = GetActiveCount (bulkhead p)"
      using unwinding_release [OF bal(1), of i r] unw by blast
    then show ?thesis
      using unw by simp
  qed
  have attempt: "Bulkhead_TryExecute fn (bulkhead p, w) = Some (r, bulkhead p, w1)"
    if "TryExecute_select (bulkhead p) = Some CaseSend \<and> fn w = Some (r, w1)"
    using that by (simp add: Bulkhead_TryExecute_def run_admitted_returns)
  have exec: "Bulkhead_Execute pick ctx fn (bulkhead p, w) = Some (r, bulkhead p, w1)"
    if "Execute_select pick ctx (bulkhead p) = Some CaseSend \<and> fn w = Some (r, w1)"
    using that by (simp add: Bulkhead_Execute_def run_admitted_returns)
  from count ends deferred attempt exec show ?thesis by blast
qed

theorem admitted_call_releases_slot_witness:
  "NewBulkhead ''payment'' 2 = Returned pool_of_two
   \<and> map_option (GetActiveCount \<circ> bulkhead)
        (run [Call_TryExecute, Callable_Ends 0 (Panicked ''nil dereference'')]
           (fresh_pool pool_of_two))
       = Some 1
   \<and> map_option (GetActiveCount \<circ> bulkhead)
        (run [Call_TryExecute, Callable_Ends 0 (Panicked ''nil dereference''), Deferred_Runs 0]
           (fresh_pool pool_of_two))
       = Some 0
   \<and> Bulkhead_TryExecute work_panicking (acquire pool_of_two, 0)
       = Some (Panicked ''nil dereference'', acquire pool_of_two, 1)
   \<and> Bulkhead_Execute 0 None work_failing (acquire pool_of_two, 0)
       = Some (Returned (Some (CallError ''status 500'')), acquire pool_of_two, 1)"
proof -
  define p where
    "p = \<lparr>bulkhead = acquire pool_of_two, phases = [Unwinding (Panicked ''nil dereference'')]\<rparr>"
  have new: "NewBulkhead ''payment'' 2 = Returned pool_of_two"
    by (simp add: NewBulkhead_def make_chan_def pool_of_two_def)
  have run: "run [Call_TryExecute, Callable_Ends 0 (Panicked ''nil dereference'')]
               (fresh_pool pool_of_two) = Some p"
    by (simp add: p_def fresh_pool_def pool_of_two_def enter_def TryExecute_select_eq
        can_send_def acquire_def send_def)
  have room: "TryExecute_select (bulkhead p) = Some CaseSend"
      "Execute_select 0 None (bulkhead p) = Some CaseSend"
    by (simp_all add: TryExecute_select_eq Execute_select_eq p_def pool_of_two_def can_send_def
        acquire_def send_def)
  have one: "GetActiveCount (bulkhead p) = 1"
    by (simp add: p_def pool_of_two_def GetActiveCount_def acquire_def send_def)
  have "run ([Call_TryExecute, Callable_Ends 0 (Panicked ''nil dereference'')] @ [Deferred_Runs 0])
               (fresh_pool pool_of_two) = fire (Deferred_Runs 0) p"
    by (simp only: run_snoc run option.case)
  then have step:
    "run [Call_TryExecute, Callable_Ends 0 (Panicked ''nil dereference''), Deferred_Runs 0]
               (fresh_pool pool_of_two) = fire (Deferred_Runs 0) p"
    by (simp only: append_Cons append_Nil)
  have i: "0 < length (phases p) \<and> phases p ! 0 = Unwinding (Panicked ''nil dereference'')"
    by (simp add: p_def)
  have w1: "work_panicking 0 = Some (Panicked ''nil dereference'', 1)"
    and w2: "work_failing 0 = Some (Returned (Some (CallError ''status 500'')), 1)"
    by (simp_all add: work_panicking_def work_failing_def)
  from admitted_call_releases_slot
         [OF new run, of 0 "Panicked ''nil dereference''" work_panicking 0 1 0 None]
       i room w1 one
  have a: "map_option (GetActiveCount \<circ> bulkhead) (fire (Deferred_Runs 0) p) = Some 0"
    and b: "Bulkhead_TryExecute work_panicking (bulkhead p, 0)
              = Some (Panicked ''nil dereference'', bulkhead p, 1)"
    by auto
  from admitted_call_releases_slot
         [OF new run, of 0 "Returned (Some (CallError ''status 500''))" work_failing 0 1 0 None]
       room w2
  have c: "Bulkhead_Execute 0 None work_failing (bulkhead p, 0)
              = Some (Returned (Some (CallError ''status 500'')), bulkhead p, 1)"
    by simp
  show ?thesis
    using new a b c one unfolding step run by (simp add: p_def)
qed

section \<open>Cancellation at admission\<close>

text \<open>
  C9, as stated, fails: with a cancelled context and a free slot, the \<^verbatim>\<open>select\<close> of
  \<^verbatim>\<open>Execute\<close> may choose the send. The call is then admitted and the callable runs.
\<close>

theorem cancelled_context_may_be_admitted:
  "can_send (semaphore pool_of_two)
   \<and> Bulkhead_Execute 0 (Some Canceled) work_ok (pool_of_two, 0)
       = Some (Returned None, pool_of_two, 1)"
  by (simp add: Bulkhead_Execute_def Execute_select_eq run_admitted_def Let_def
      release_acquire work_ok_def pool_of_two_def can_send_def)

text \<open>
  C9, amended. With a context that is done and no free slot, \<^verbatim>\<open>Execute\<close> returns the
  context's error; the bulkhead and the world of the callable are untouched. With a
  context that is done and a free slot, both cases of the \<^verbatim>\<open>select\<close> can proceed and
  \<^verbatim>\<open>Execute\<close> does one or the other: it admits the call, or returns the context's
  error. With a context that is not done and no free slot it returns
  \<open>ErrBulkheadFull\<close> at once, without invoking the callable.
\<close>

theorem execute_admission_outcomes:
  "(ctx = Some e \<and> \<not> can_send (semaphore b) \<longrightarrow>
      Bulkhead_Execute pick ctx fn (b, w) = Some (Returned (Some e), b, w))
 \<and> (ctx = Some e \<and> can_send (semaphore b) \<longrightarrow>
      (Bulkhead_Execute pick ctx fn (b, w) = run_admitted fn (b, w)
         \<or> Bulkhead_Execute pick ctx fn (b, w) = Some (Returned (Some e), b, w))
      \<and> Bulkhead_Execute 0 ctx fn (b, w) = run_admitted fn (b, w)
      \<and> Bulkhead_Execute 1 ctx fn (b, w) = Some (Returned (Some e), b, w))
 \<and> (ctx = None \<and> \<not> can_send (semaphore b) \<longrightarrow>
      Bulkhead_Execute pick ctx fn (b, w) = Some (Returned (Some ErrBulkheadFull), reject b, w))"
proof -
  have done_full: "Bulkhead_Execute pick ctx fn (b, w) = Some (Returned (Some e), b, w)"
    if "ctx = Some e \<and> \<not> can_send (semaphore b)"
    using that by (simp add: rejected_when_full)
  have done_room:
    "(Bulkhead_Execute pick ctx fn (b, w) = run_admitted fn (b, w)
         \<or> Bulkhead_Execute pick ctx fn (b, w) = Some (Returned (Some e), b, w))
      \<and> Bulkhead_Execute 0 ctx fn (b, w) = run_admitted fn (b, w)
      \<and> Bulkhead_Execute 1 ctx fn (b, w) = Some (Returned (Some e), b, w)"
    if "ctx = Some e \<and> can_send (semaphore b)"
    using that by (simp add: admitted_when_room)
  have live_full:
    "Bulkhead_Execute pick ctx fn (b, w) = Some (Returned (Some ErrBulkheadFull), reject b, w)"
    if "ctx = None \<and> \<not> can_send (semaphore b)"
    using that by (simp add: rejected_when_full)
  from done_full done_room live_full show ?thesis by blast
qed

theorem execute_admission_outcomes_witness:
  "Bulkhead_Execute 0 (Some Canceled) work_ok (payment_pool_full, 0)
     = Some (Returned (Some Canceled), payment_pool_full, 0)
   \<and> Bulkhead_Execute 0 (Some DeadlineExceeded) work_ok (pool_of_two, 0)
     = Some (Returned None, pool_of_two, 1)
   \<and> Bulkhead_Execute 1 (Some DeadlineExceeded) work_ok (pool_of_two, 0)
     = Some (Returned (Some DeadlineExceeded), pool_of_two, 0)
   \<and> Bulkhead_Execute 0 None work_ok (payment_pool_full, 0)
     = Some (Returned (Some ErrBulkheadFull), reject payment_pool_full, 0)"
proof -
  have full: "\<not> can_send (semaphore payment_pool_full)"
    and room: "can_send (semaphore pool_of_two)"
    by (simp_all add: payment_pool_full_def pool_of_two_def can_send_def)
  have adm: "run_admitted work_ok (pool_of_two, 0) = Some (Returned None, pool_of_two, 1)"
    by (simp add: run_admitted_returns work_ok_def)
  from execute_admission_outcomes
         [where ctx = "Some Canceled" and e = Canceled and b = payment_pool_full
            and pick = 0 and fn = work_ok and w = 0]
       execute_admission_outcomes
         [where ctx = "Some DeadlineExceeded" and e = DeadlineExceeded and b = pool_of_two
            and pick = 0 and fn = work_ok and w = 0]
       execute_admission_outcomes
         [where ctx = None and b = payment_pool_full and pick = 0 and fn = work_ok and w = 0]
       full room adm
  show ?thesis by simp
qed

section \<open>Rejections in the payment client\<close>

lemma bulkhead_closure_full:
  "\<not> can_send (semaphore b) \<Longrightarrow>
     bulkhead_closure mk (b, net) = Some (Returned (None, Some ErrBulkheadFull), (reject b, net))"
  by (simp add: bulkhead_closure_def rejected_when_full)

lemma bulkhead_closure_call:
  assumes "can_send (semaphore b)"
  shows "bulkhead_closure mk (b, net) =
           (case mk net of
              None \<Rightarrow> None
            | Some (Panicked msg, net1) \<Rightarrow> Some (Panicked msg, (b, net1))
            | Some (Returned (r, Some e), net1) \<Rightarrow> Some (Returned (None, Some e), (b, net1))
            | Some (Returned (r, None), net1) \<Rightarrow> Some (Returned (r, None), (b, net1)))"
  using assms
  by (simp add: bulkhead_closure_def admitted_when_room run_admitted_def Let_def
      release_acquire call_closure_def split: option.splits outcome.splits prod.splits)

text \<open>
  C1, as stated, fails. The breaker of the payment client is Closed with four failures
  on record, the bulkhead is full, and \<^verbatim>\<open>ProcessPayment\<close> is called one second later.
  The payment service is not called (the network is untouched) and the caller gets
  \<open>ErrBulkheadFull\<close>, yet the rejection is recorded as the fifth failure and opens
  the breaker.
\<close>

theorem bulkhead_rejection_trips_breaker:
  "state (record_failures [0, 0, 0, 0] (NewCircuitBreaker ''payment'' 5 (30 * Second)))
     = StateClosed
   \<and> \<not> can_send (semaphore payment_pool_full)
   \<and> map_option fst
        (ProcessPayment Second Second pay_ok
           (record_failures [0, 0, 0, 0] (NewCircuitBreaker ''payment'' 5 (30 * Second)),
            payment_pool_full, 0))
       = Some (Returned (None, Some ErrBulkheadFull))
   \<and> map_option (snd \<circ> snd \<circ> snd)
        (ProcessPayment Second Second pay_ok
           (record_failures [0, 0, 0, 0] (NewCircuitBreaker ''payment'' 5 (30 * Second)),
            payment_pool_full, 0))
       = Some 0
   \<and> map_option (failureTimestamps \<circ> fst \<circ> snd)
        (ProcessPayment Second Second pay_ok
           (record_failures [0, 0, 0, 0] (NewCircuitBreaker ''payment'' 5 (30 * Second)),
            payment_pool_full, 0))
       = Some [0, 0, 0, 0, Second]
   \<and> map_option (state \<circ> fst \<circ> snd)
        (ProcessPayment Second Second pay_ok
           (record_failures [0, 0, 0, 0] (NewCircuitBreaker ''payment'' 5 (30 * Second)),
            payment_pool_full, 0))
       = Some StateOpen"
proof -
  define cb4 where
    "cb4 = record_failures [0, 0, 0, 0] (NewCircuitBreaker ''payment'' 5 (30 * Second))"
  have s4: "state cb4 = StateClosed"
    and f4: "failureTimestamps cb4 = [0, 0, 0, 0]"
    and w4: "failureWindow cb4 = 10 * Second"
    and t4: "failureThreshold cb4 = 5"
    by (simp_all add: cb4_def recordFailure_state recordFailure_timestamps recordFailure_config
        windowStart_of_def NewCircuitBreaker_def time_after_def time_add_def neg_duration_def
        minDuration_def Second_def)
  have full: "\<not> can_send (semaphore payment_pool_full)"
    by (simp add: payment_pool_full_def can_send_def)
  have run: "ProcessPayment Second Second pay_ok (cb4, payment_pool_full, 0)
      = Some (Returned (None, Some ErrBulkheadFull), recordFailure Second cb4,
              reject payment_pool_full, 0)"
    by (simp add: ProcessPayment_def CircuitBreaker_Execute_def canAttempt_def s4
        bulkhead_closure_full [OF full])
  have pos: "0 < failureWindow cb4"
    by (simp add: w4 Second_def)
  have st: "state (recordFailure Second cb4) = StateOpen"
    and ft: "failureTimestamps (recordFailure Second cb4) = [0, 0, 0, 0, Second]"
    by (simp_all add: recordFailure_state recordFailure_timestamps in_window_iff [OF pos]
        s4 f4 w4 t4 Second_def)
  show ?thesis
    unfolding cb4_def [symmetric] by (simp add: s4 full run st ft)
qed

text \<open>
  C1, amended. In \<^verbatim>\<open>ProcessPayment\<close> a circuit-open rejection records no failure:
  only the rejection counter of the breaker changes, and neither the bulkhead nor the
  payment service is reached. When the breaker admits and the bulkhead is full, the
  payment service is not called and \<open>ErrBulkheadFull\<close> is returned to the caller, but
  as the error of the breaker's callable: the breaker records it with
  \<^verbatim>\<open>recordFailure\<close>, exactly as it records the error of a call that was made (a
  call that succeeds is recorded with \<^verbatim>\<open>recordSuccess\<close>). \<^verbatim>\<open>ProcessPayment\<close> enters the bulkhead through
  \<^verbatim>\<open>TryExecute\<close>, whose admission either sends or takes the default case: there is
  no cancellation at admission.
\<close>

theorem process_payment_rejections:
  "(state cb = StateOpen \<and> \<not> timeout cb < time_since tA (lastFailureTime cb) \<longrightarrow>
      ProcessPayment tA tR mk (cb, b, net)
        = Some (Returned (None, Some ErrCircuitOpen),
                cb\<lparr>circuitBreakerFailures := circuitBreakerFailures cb + 1\<rparr>, b, net))
 \<and> (fst (canAttempt tA cb) \<and> \<not> can_send (semaphore b) \<longrightarrow>
      ProcessPayment tA tR mk (cb, b, net)
        = Some (Returned (None, Some ErrBulkheadFull),
                recordFailure tR (snd (canAttempt tA cb)), reject b, net))
 \<and> (fst (canAttempt tA cb) \<and> can_send (semaphore b)
      \<and> mk net = Some (Returned (r, Some e), net1) \<longrightarrow>
      ProcessPayment tA tR mk (cb, b, net)
        = Some (Returned (None, Some e), recordFailure tR (snd (canAttempt tA cb)), b, net1))
 \<and> (fst (canAttempt tA cb) \<and> can_send (semaphore b)
      \<and> mk net = Some (Returned (r, None), net1) \<longrightarrow>
      ProcessPayment tA tR mk (cb, b, net)
        = Some (Returned (r, None), recordSuccess (snd (canAttempt tA cb)), b, net1))
 \<and> (TryExecute_select b = Some CaseSend \<or> TryExecute_select b = Some CaseDefault)"
proof -
  have admission: "TryExecute_select b = Some CaseSend \<or> TryExecute_select b = Some CaseDefault"
    by (simp add: TryExecute_select_eq)
  have opened: "ProcessPayment tA tR mk (cb, b, net)
        = Some (Returned (None, Some ErrCircuitOpen),
                cb\<lparr>circuitBreakerFailures := circuitBreakerFailures cb + 1\<rparr>, b, net)"
    if "state cb = StateOpen \<and> \<not> timeout cb < time_since tA (lastFailureTime cb)"
    using that by (simp add: ProcessPayment_def Execute_rejected)
  obtain ok cb1 where ca: "canAttempt tA cb = (ok, cb1)"
    by (cases "canAttempt tA cb")
  have full: "ProcessPayment tA tR mk (cb, b, net)
        = Some (Returned (None, Some ErrBulkheadFull),
                recordFailure tR (snd (canAttempt tA cb)), reject b, net)"
    if "fst (canAttempt tA cb) \<and> \<not> can_send (semaphore b)"
    using that ca
    by (simp add: ProcessPayment_def CircuitBreaker_Execute_def bulkhead_closure_full)
  have failed: "ProcessPayment tA tR mk (cb, b, net)
        = Some (Returned (None, Some e), recordFailure tR (snd (canAttempt tA cb)), b, net1)"
    if "fst (canAttempt tA cb) \<and> can_send (semaphore b)
          \<and> mk net = Some (Returned (r, Some e), net1)"
    using that ca
    by (simp add: ProcessPayment_def CircuitBreaker_Execute_def bulkhead_closure_call)
  have succeeded: "ProcessPayment tA tR mk (cb, b, net)
        = Some (Returned (r, None), recordSuccess (snd (canAttempt tA cb)), b, net1)"
    if "fst (canAttempt tA cb) \<and> can_send (semaphore b)
          \<and> mk net = Some (Returned (r, None), net1)"
    using that ca
    by (simp add: ProcessPayment_def CircuitBreaker_Execute_def bulkhead_closure_call)
  from opened full failed succeeded admission show ?thesis by blast
qed

theorem process_payment_rejections_witness:
  "map_option fst
     (ProcessPayment (10 * Second) (11 * Second) pay_ok
        (record_failures [0, 0, 0, 0, 0] (NewCircuitBreaker ''payment'' 5 (30 * Second)),
         pool_of_two, 0))
     = Some (Returned (None, Some ErrCircuitOpen))
   \<and> map_option (failureTimestamps \<circ> fst \<circ> snd)
       (ProcessPayment (10 * Second) (11 * Second) pay_ok
          (record_failures [0, 0, 0, 0, 0] (NewCircuitBreaker ''payment'' 5 (30 * Second)),
           pool_of_two, 0))
     = Some [0, 0, 0, 0, 0]
   \<and> map_option (snd \<circ> snd)
       (ProcessPayment (10 * Second) (11 * Second) pay_ok
          (record_failures [0, 0, 0, 0, 0] (NewCircuitBreaker ''payment'' 5 (30 * Second)),
           pool_of_two, 0))
     = Some (pool_of_two, 0)
   \<and> map_option fst
       (ProcessPayment 0 Second pay_ok
          (NewCircuitBreaker ''payment'' 5 (30 * Second), payment_pool_full, 0))
     = Some (Returned (None, Some ErrBulkheadFull))
   \<and> map_option (failureTimestamps \<circ> fst \<circ> snd)
       (ProcessPayment 0 Second pay_ok
          (NewCircuitBreaker ''payment'' 5 (30 * Second), payment_pool_full, 0))
     = Some [Second]
   \<and> map_option fst
       (ProcessPayment 0 Second pay_failing
          (NewCircuitBreaker ''payment'' 5 (30 * Second), pool_of_two, 0))
     = Some (Returned (None, Some (CallError ''status 500'')))
   \<and> map_option fst
       (ProcessPayment 0 Second pay_ok
          (NewCircuitBreaker ''payment'' 5 (30 * Second), pool_of_two, 0))
     = Some (Returned (Some 1, None))"
proof -
  define cb0 where "cb0 = NewCircuitBreaker ''payment'' 5 (30 * Second)"
  define cb5 where "cb5 = record_failures [0, 0, 0, 0, 0] cb0"
  have s5: "state cb5 = StateOpen"
    and f5: "failureTimestamps cb5 = [0, 0, 0, 0, 0]"
    by (simp_all add: cb5_def cb0_def recordFailure_state recordFailure_timestamps
        recordFailure_config windowStart_of_def NewCircuitBreaker_def time_after_def
        time_add_def neg_duration_def minDuration_def Second_def)
  have tmo: "timeout cb5 = 30 * Second" and lft: "lastFailureTime cb5 = 0"
    by (simp_all add: cb5_def cb0_def recordFailure_config recordFailure_lastFailureTime
        NewCircuitBreaker_def)
  have wait: "\<not> timeout cb5 < time_since (10 * Second) (lastFailureTime cb5)"
    by (simp add: tmo lft time_since_def time_sub_def maxDuration_def minDuration_def Second_def)
  have adm: "canAttempt 0 cb0 = (True, cb0)"
    by (simp add: canAttempt_def cb0_def NewCircuitBreaker_def)
  have full: "\<not> can_send (semaphore payment_pool_full)"
    and room: "can_send (semaphore pool_of_two)"
    by (simp_all add: payment_pool_full_def pool_of_two_def can_send_def)
  have ft: "failureTimestamps (recordFailure Second cb0) = [Second]"
    by (simp add: recordFailure_timestamps windowStart_of_def cb0_def NewCircuitBreaker_def
        time_after_def time_add_def neg_duration_def minDuration_def Second_def)
  have a: "ProcessPayment (10 * Second) (11 * Second) pay_ok (cb5, pool_of_two, 0)
        = Some (Returned (None, Some ErrCircuitOpen),
                cb5\<lparr>circuitBreakerFailures := circuitBreakerFailures cb5 + 1\<rparr>, pool_of_two, 0)"
    using process_payment_rejections
      [where cb = cb5 and tA = "10 * Second" and tR = "11 * Second" and mk = pay_ok
         and b = pool_of_two and net = 0] s5 wait
    by simp
  have b: "ProcessPayment 0 Second pay_ok (cb0, payment_pool_full, 0)
        = Some (Returned (None, Some ErrBulkheadFull), recordFailure Second cb0,
                reject payment_pool_full, 0)"
    using process_payment_rejections
      [where cb = cb0 and tA = 0 and tR = Second and mk = pay_ok
         and b = payment_pool_full and net = 0] adm full
    by simp
  have c: "ProcessPayment 0 Second pay_failing (cb0, pool_of_two, 0)
        = Some (Returned (None, Some (CallError ''status 500'')), recordFailure Second cb0,
                pool_of_two, 1)"
    using process_payment_rejections
      [where cb = cb0 and tA = 0 and tR = Second and mk = pay_failing
         and b = pool_of_two and net = 0 and r = None and e = "CallError ''status 500''"
         and ?net1.0 = 1] adm room
    by (simp add: pay_failing_def)
  have d: "ProcessPayment 0 Second pay_ok (cb0, pool_of_two, 0)
        = Some (Returned (Some 1, None), recordSuccess cb0, pool_of_two, 1)"
    using process_payment_rejections
      [where cb = cb0 and tA = 0 and tR = Second and mk = pay_ok
         and b = pool_of_two and net = 0 and r = "Some 1" and ?net1.0 = 1] adm room
    by (simp add: pay_ok_def)
  show ?thesis
    unfolding cb0_def [symmetric] unfolding cb5_def [symmetric]
    by (simp add: a b c d f5 ft)
qed

end
